theory Spec2Isabelle
  imports Main "HOL-Library.Sublist"
begin

text \<open>
  The server of the Ralph dashboard: the file watcher, which parses the checklist and
  tails the log of the loop; the loop controller, which starts and stops the loop
  process; and the server proper, which relays the events of both to the connected
  observers and takes their commands. Every method is a function from the state before
  to the state after, together with the events it emits, in order; a synchronous handler
  runs to its end before the next one starts, as on the event loop. An \<open>async\<close> method
  gives the event loop back at each \<open>await\<close>. \<open>parseTasks\<close> has one, the read of the
  file, and reads no field of the watcher before it, so it is a function of the file as
  the read finds it. \<open>tailLog\<close> has four and compares the offset before it stores it, so
  it is also modelled one \<open>await\<close> at a time.
\<close>

section \<open>JavaScript strings\<close>

text \<open>
  Text is a \<^typ>\<open>string\<close>: one \<^typ>\<open>char\<close> per code unit, which is exact for ASCII
  text, where a byte of a UTF-8 file, a code unit of the decoded string and a character
  coincide. White space outside ASCII (U+00A0, U+2028, ...) and Unicode case mapping are
  outside the model, so a theorem about text of any content, read from a file or from
  the output of the loop, assumes that the text is ASCII.
\<close>

definition ascii :: "string \<Rightarrow> bool" where
  "ascii s = list_all (\<lambda>c. (of_char c :: nat) < 128) s"

definition is_space :: "char \<Rightarrow> bool" where
  \<comment> \<open>the class \<open>\s\<close> of a regular expression, also what \<open>trim\<close> strips: tab, line feed,
      vertical tab, form feed, carriage return, space\<close>
  "is_space c = (c = CHR 0x09 \<or> c = CHR 0x0A \<or> c = CHR 0x0B \<or> c = CHR 0x0C
     \<or> c = CHR 0x0D \<or> c = CHR '' '')"

definition is_dot :: "char \<Rightarrow> bool" where
  \<comment> \<open>the class \<open>.\<close> of a regular expression: anything but a line terminator\<close>
  "is_dot c = (c \<noteq> CHR 0x0A \<and> c \<noteq> CHR 0x0D)"

definition is_digit :: "char \<Rightarrow> bool" where
  \<comment> \<open>the class \<open>\d\<close>\<close>
  "is_digit c = (c = CHR ''0'' \<or> c = CHR ''1'' \<or> c = CHR ''2'' \<or> c = CHR ''3'' \<or> c = CHR ''4''
     \<or> c = CHR ''5'' \<or> c = CHR ''6'' \<or> c = CHR ''7'' \<or> c = CHR ''8'' \<or> c = CHR ''9'')"

definition trim :: "string \<Rightarrow> string" where
  \<comment> \<open>\<open>String.prototype.trim\<close>\<close>
  "trim s = rev (dropWhile is_space (rev (dropWhile is_space s)))"

definition toLowerCase_char :: "char \<Rightarrow> char" where
  "toLowerCase_char c =
     (case map_of (zip ''ABCDEFGHIJKLMNOPQRSTUVWXYZ'' ''abcdefghijklmnopqrstuvwxyz'') c of
        Some l \<Rightarrow> l
      | None \<Rightarrow> c)"

definition toLowerCase :: "string \<Rightarrow> string" where
  \<comment> \<open>\<open>String.prototype.toLowerCase\<close>\<close>
  "toLowerCase s = map toLowerCase_char s"

fun str_includes :: "string \<Rightarrow> string \<Rightarrow> bool" where
  \<comment> \<open>\<open>s.includes(sub)\<close>: \<open>sub\<close> occurs in \<open>s\<close> as a contiguous run\<close>
  "str_includes [] sub = (sub = [])"
| "str_includes (c # cs) sub = (prefix sub (c # cs) \<or> str_includes cs sub)"

fun split_newline :: "string \<Rightarrow> string list" where
  \<comment> \<open>\<open>s.split('\n')\<close>: the pieces between line feeds; never the empty list\<close>
  "split_newline [] = [[]]"
| "split_newline (c # cs) =
     (if c = CHR 0x0A then [] # split_newline cs
      else (case split_newline cs of
              l # ls \<Rightarrow> (c # l) # ls
            | [] \<Rightarrow> [[c]]))"

definition digit_char :: "nat \<Rightarrow> char" where
  "digit_char d = ''0123456789'' ! (d mod 10)"

fun show_nat :: "nat \<Rightarrow> string" where
  \<comment> \<open>the decimal numeral of an index, as a template literal prints it\<close>
  "show_nat n = (if n < 10 then [digit_char n] else show_nat (n div 10) @ [digit_char n])"

declare show_nat.simps [simp del]

definition show_int :: "int \<Rightarrow> string" where
  \<comment> \<open>\<open>Number.prototype.toString\<close> on an integer (below the exponent notation of
      \<open>1e21\<close>)\<close>
  "show_int i = (if i < 0 then CHR ''-'' # show_nat (nat (- i)) else show_nat (nat i))"

section \<open>The shared types (\<open>src/types\<close>)\<close>

datatype severity = Info | Error | Warning | Success

text \<open>
  A \<open>LogEntry\<close> also carries an \<open>id\<close> built from the clock and a random number and a
  \<open>timestamp\<close>; both are fresh values that no property below reads, and the record
  keeps the two fields that the code computes from its input.
\<close>

record LogEntry =
  entry_content :: string
  entry_type :: severity

record Task =
  task_id :: string
  task_content :: string
  task_completed :: bool

record TasksState =
  tasks :: "Task list"
  completed :: nat
  total :: nat
  tasks_lastUpdated :: "nat option"

record GitCommit =
  commit_hash :: string
  commit_message :: string
  commit_author :: string
  commit_date :: nat

record GitStatus =
  branch :: string
  uncommittedCount :: nat
  commits :: "GitCommit list"
  git_lastUpdated :: "nat option"
  remoteUrl :: "string option"
  repoName :: "string option"

text \<open>
  The filesystem: the content of every file that exists, by path. \<open>fs.stat\<close> and
  \<open>fs.readFile\<close> throw where the map is undefined.
\<close>

type_synonym filesystem = "string \<rightharpoonup> string"

definition path_join :: "string \<Rightarrow> string \<Rightarrow> string" where
  \<comment> \<open>\<open>path.join\<close> of a directory and a relative name. \<open>path.join\<close> also brings its
      result to normal form; the two coincide when the directory is in normal form and
      the name has no segment \<open>.\<close> or \<open>..\<close> and no doubled or trailing slash, as is the
      case of \<open>loop.sh\<close>, \<open>ralph.log\<close> and \<open>IMPLEMENTATION_PLAN.md\<close>. The paths only serve
      as keys of the filesystem\<close>
  "path_join dir name = dir @ ''/'' @ name"

section \<open>The file watcher (\<open>server/fileWatcher.ts\<close>)\<close>

record FileWatcher =
  fw_projectPath :: string
  fw_tasks :: TasksState
  gitStatus :: GitStatus
  lastLogPosition :: nat

datatype fw_event = TasksEvent TasksState | LogEvent LogEntry | GitEvent GitStatus

definition new_FileWatcher :: "string \<Rightarrow> FileWatcher" where
  "new_FileWatcher projectPath =
     \<lparr>fw_projectPath = projectPath,
      fw_tasks = \<lparr>tasks = [], completed = 0, total = 0, tasks_lastUpdated = None\<rparr>,
      gitStatus = \<lparr>branch = ''main'', uncommittedCount = 0, commits = [],
                   git_lastUpdated = None, remoteUrl = None, repoName = None\<rparr>,
      lastLogPosition = 0\<rparr>"

definition getTasks :: "FileWatcher \<Rightarrow> TasksState" where
  "getTasks fw = fw_tasks fw"

definition getGitStatus :: "FileWatcher \<Rightarrow> GitStatus" where
  "getGitStatus fw = gitStatus fw"

subsection \<open>parseTasks\<close>

text \<open>
  The pattern \<open>/^-\s*\[([ xX])\]\s*(.+)$/\<close> on one line. The first \<open>\s*\<close> is followed by
  a bracket, which is no white space, so it takes all the white space there is. The
  second \<open>\s*\<close> is greedy too, but gives characters back while \<open>(.+)$\<close> fails on what is
  left: \<open>backtrack_ws k rest\<close> tries \<open>k\<close> characters of white space, then \<open>k - 1\<close>, ...
\<close>

fun backtrack_ws :: "nat \<Rightarrow> string \<Rightarrow> string option" where
  "backtrack_ws 0 rest =
     (if rest \<noteq> [] \<and> list_all is_dot rest then Some rest else None)"
| "backtrack_ws (Suc k) rest =
     (if drop (Suc k) rest \<noteq> [] \<and> list_all is_dot (drop (Suc k) rest)
      then Some (drop (Suc k) rest)
      else backtrack_ws k rest)"

definition match_task :: "string \<Rightarrow> (char \<times> string) option" where
  \<comment> \<open>\<open>line.match(...)\<close>: the groups \<open>match[1]\<close> and \<open>match[2]\<close>, or \<open>None\<close> for \<open>null\<close>\<close>
  "match_task line =
     (case line of
        [] \<Rightarrow> None
      | d # after_dash \<Rightarrow>
          if d \<noteq> CHR ''-'' then None
          else (case dropWhile is_space after_dash of
                  lb # c # rb # rest \<Rightarrow>
                    if lb = CHR ''['' \<and> (c = CHR '' '' \<or> c = CHR ''x'' \<or> c = CHR ''X'')
                       \<and> rb = CHR '']''
                    then (case backtrack_ws (length (takeWhile is_space rest)) rest of
                            Some body \<Rightarrow> Some (c, body)
                          | None \<Rightarrow> None)
                    else None
                | _ \<Rightarrow> None))"

definition make_task :: "nat \<Rightarrow> char \<Rightarrow> string \<Rightarrow> Task" where
  "make_task index c body =
     \<lparr>task_id = ''task-'' @ show_nat index,
      task_content = trim body,
      task_completed = (toLowerCase_char c = CHR ''x'')\<rparr>"

fun parse_lines :: "string list \<Rightarrow> nat \<Rightarrow> Task list \<Rightarrow> Task list" where
  \<comment> \<open>the \<open>lines.forEach((line, index) => ...)\<close> loop, pushing onto \<open>tasks\<close>\<close>
  "parse_lines [] index acc = acc"
| "parse_lines (line # lines) index acc =
     parse_lines lines (Suc index)
       (case match_task line of
          Some (c, body) \<Rightarrow> acc @ [make_task index c body]
        | None \<Rightarrow> acc)"

definition planPath :: "FileWatcher \<Rightarrow> string" where
  "planPath fw = path_join (fw_projectPath fw) ''IMPLEMENTATION_PLAN.md''"

definition parseTasks :: "filesystem \<Rightarrow> nat \<Rightarrow> FileWatcher \<Rightarrow> FileWatcher \<times> fw_event list" where
  \<comment> \<open>the new state and the events emitted; \<open>now\<close> is the clock read by \<open>new Date()\<close>\<close>
  "parseTasks fs now fw =
     (case fs (planPath fw) of
        None \<Rightarrow> (fw, [])
      | Some content \<Rightarrow>
          let ts = parse_lines (split_newline content) 0 [];
              st = \<lparr>tasks = ts,
                    completed = length (filter task_completed ts),
                    total = length ts,
                    tasks_lastUpdated = Some now\<rparr>
          in (fw\<lparr>fw_tasks := st\<rparr>, [TasksEvent st]))"

text \<open>
  The same pattern said as a language, with no strategy of matching: a line is a task
  line with the bracket content \<open>c\<close> and the remainder \<open>rest\<close> when it is a dash, white
  space, the bracketed \<open>c\<close> and \<open>rest\<close>, and \<open>rest\<close> is white space followed by at least one
  character, none of them a line terminator. This is what \<open>match_task\<close> is compared with;
  \<open>task_of_line\<close> says what the item of the line at an index is.
\<close>

definition task_line :: "string \<Rightarrow> char \<Rightarrow> string \<Rightarrow> bool" where
  "task_line line c rest =
     (\<exists>ws ws' body.
        line = CHR ''-'' # ws @ CHR ''['' # c # CHR '']'' # rest
        \<and> list_all is_space ws
        \<and> (c = CHR '' '' \<or> c = CHR ''x'' \<or> c = CHR ''X'')
        \<and> rest = ws' @ body
        \<and> list_all is_space ws'
        \<and> body \<noteq> []
        \<and> list_all is_dot body)"

definition is_task_line :: "string \<Rightarrow> bool" where
  "is_task_line line = (\<exists>c rest. task_line line c rest)"

definition is_done_line :: "string \<Rightarrow> bool" where
  "is_done_line line = (\<exists>c rest. task_line line c rest \<and> (c = CHR ''x'' \<or> c = CHR ''X''))"

definition task_of_line :: "Task \<Rightarrow> nat \<times> string \<Rightarrow> bool" where
  \<comment> \<open>the item \<open>t\<close> is the one of the line \<open>snd p\<close>, which stands at the index \<open>fst p\<close>\<close>
  "task_of_line t p =
     (\<exists>c rest. task_line (snd p) c rest
        \<and> task_id t = ''task-'' @ show_nat (fst p)
        \<and> task_completed t = (c = CHR ''x'' \<or> c = CHR ''X'')
        \<and> task_content t = trim rest)"

subsection \<open>tailLog\<close>

definition classifyLogLine :: "string \<Rightarrow> severity" where
  "classifyLogLine line =
     (let lower = toLowerCase line in
      if str_includes lower ''error'' \<or> str_includes lower ''fail'' \<or> str_includes lower ''exception''
      then Error
      else if str_includes lower ''warning'' \<or> str_includes lower ''warn'' then Warning
      else if str_includes lower ''success'' \<or> str_includes lower ''complete'' \<or> str_includes lower ''pass''
      then Success
      else Info)"

definition log_lines :: "string \<Rightarrow> string list" where
  \<comment> \<open>\<open>newContent.split('\n').filter((line) => line.trim())\<close>\<close>
  "log_lines newContent = filter (\<lambda>line. trim line \<noteq> []) (split_newline newContent)"

definition log_entry :: "string \<Rightarrow> LogEntry" where
  "log_entry line = \<lparr>entry_content = line, entry_type = classifyLogLine line\<rparr>"

definition logPath :: "FileWatcher \<Rightarrow> string" where
  "logPath fw = path_join (fw_projectPath fw) ''ralph.log''"

definition tailLog :: "filesystem \<Rightarrow> FileWatcher \<Rightarrow> FileWatcher \<times> fw_event list" where
  \<comment> \<open>\<open>stat.size\<close> is the length of the file; the buffer holds the bytes from
      \<open>lastLogPosition\<close> to the end\<close>
  "tailLog fs fw =
     (case fs (logPath fw) of
        None \<Rightarrow> (fw\<lparr>lastLogPosition := 0\<rparr>, [])
      | Some bytes \<Rightarrow>
          if length bytes > lastLogPosition fw
          then let newContent = take (length bytes - lastLogPosition fw)
                                  (drop (lastLogPosition fw) bytes)
               in (fw\<lparr>lastLogPosition := length bytes\<rparr>,
                   map (\<lambda>line. LogEvent (log_entry line)) (log_lines newContent))
          else (fw, []))"

definition emitted_lines :: "fw_event list \<Rightarrow> string list" where
  \<comment> \<open>the content of the log events in a list of events, in order\<close>
  "emitted_lines evs = concat (map (\<lambda>e. case e of LogEvent l \<Rightarrow> [entry_content l] | _ \<Rightarrow> []) evs)"

subsection \<open>tailLog, one await at a time\<close>

text \<open>
  The method \<open>tailLog\<close> is \<open>async\<close>: it waits for \<open>fs.stat\<close>, \<open>fs.open\<close>, \<open>handle.read\<close> and
  \<open>handle.close\<close>, and between two of them other handlers run, a second call of \<open>tailLog\<close>
  among them, since the watcher does not wait for a call to end before it starts the next.
  A call is modelled by what it is waiting for, with the values it has computed so far,
  and \<open>tail_resume\<close> runs it from one \<open>await\<close> to the next:
  \<^item> after \<open>fs.stat\<close>, the size is compared with \<open>this.lastLogPosition\<close>;
  \<^item> after \<open>fs.open\<close>, the buffer is allocated with \<open>stat.size - this.lastLogPosition\<close>
    bytes (a negative size throws) and the read is issued from \<open>this.lastLogPosition\<close>,
    both as they are at that moment;
  \<^item> after \<open>handle.read\<close>, the buffer holds the bytes read, and zeros where the file
    ended before the buffer was full;
  \<^item> after \<open>handle.close\<close>, the lines of the buffer are emitted and the offset becomes
    the size that \<open>fs.stat\<close> gave.
  An operation that fails throws into the \<open>catch\<close>, which resets the offset to 0.
  The definition \<open>tailLog\<close> above is one call that runs to its end while no other call is
  in flight and the file does not change (\<open>tailLog_serial\<close> below).
\<close>

datatype completion =
    Stat_done "nat option"
  | Open_done bool
  | Read_done "string option"
  | Close_done bool

datatype tail_call =
    Stat_pending
  | Open_pending nat
  | Read_pending nat nat nat
  | Close_pending nat string
  | Finished

definition tail_catch :: "FileWatcher \<Rightarrow> tail_call \<times> FileWatcher \<times> fw_event list" where
  "tail_catch fw = (Finished, fw\<lparr>lastLogPosition := 0\<rparr>, [])"

fun tail_resume :: "tail_call \<Rightarrow> completion \<Rightarrow> FileWatcher \<Rightarrow> tail_call \<times> FileWatcher \<times> fw_event list" where
  \<comment> \<open>\<open>Open_pending sz\<close>: \<open>stat.size\<close>; \<open>Read_pending sz len position\<close>: \<open>stat.size\<close>,
      \<open>buffer.length\<close> and the position given to \<open>handle.read\<close>; \<open>Close_pending sz buffer\<close>:
      \<open>stat.size\<close> and the content of the buffer\<close>
  "tail_resume Stat_pending (Stat_done (Some sz)) fw =
     (if sz > lastLogPosition fw then (Open_pending sz, fw, []) else (Finished, fw, []))"
| "tail_resume Stat_pending (Stat_done None) fw = tail_catch fw"
| "tail_resume (Open_pending sz) (Open_done True) fw =
     (if sz < lastLogPosition fw then tail_catch fw
      else (Read_pending sz (sz - lastLogPosition fw) (lastLogPosition fw), fw, []))"
| "tail_resume (Open_pending sz) (Open_done False) fw = tail_catch fw"
| "tail_resume (Read_pending sz len position) (Read_done (Some bytes)) fw =
     (Close_pending sz (take len bytes @ replicate (len - length bytes) (CHR 0x00)), fw, [])"
| "tail_resume (Read_pending sz len position) (Read_done None) fw = tail_catch fw"
| "tail_resume (Close_pending sz buffer) (Close_done True) fw =
     (Finished, fw\<lparr>lastLogPosition := sz\<rparr>,
      map (\<lambda>line. LogEvent (log_entry line)) (log_lines buffer))"
| "tail_resume (Close_pending sz buffer) (Close_done False) fw = tail_catch fw"
| "tail_resume call c fw = (call, fw, [])"

definition file_completion :: "string option \<Rightarrow> tail_call \<Rightarrow> completion" where
  \<comment> \<open>how the operation that a call is waiting for ends when the log holds the given
      bytes (\<open>None\<close>: there is no such file; the read of a file that was removed after it
      had been opened is taken to fail, and no property below removes the log during a
      call)\<close>
  "file_completion file call =
     (case call of
        Stat_pending \<Rightarrow> Stat_done (map_option length file)
      | Open_pending sz \<Rightarrow> Open_done (file \<noteq> None)
      | Read_pending sz len position \<Rightarrow>
          Read_done (map_option (\<lambda>bytes. take len (drop position bytes)) file)
      | Close_pending sz buffer \<Rightarrow> Close_done True
      | Finished \<Rightarrow> Close_done True)"

text \<open>
  The watcher with its calls of \<open>tailLog\<close> in flight and the events emitted so far. A
  notification starts a call; \<open>Answered i file\<close> ends the operation that call \<open>i\<close> is
  waiting for, the log holding \<open>file\<close> at that moment.
\<close>

record Tailing =
  watcher :: FileWatcher
  calls :: "tail_call list"
  emitted :: "fw_event list"

datatype tail_event = Notified | Answered nat "string option"

definition tail_step :: "tail_event \<Rightarrow> Tailing \<Rightarrow> Tailing" where
  "tail_step ev st =
     (case ev of
        Notified \<Rightarrow> st\<lparr>calls := calls st @ [Stat_pending]\<rparr>
      | Answered i file \<Rightarrow>
          if i < length (calls st)
          then (let r = tail_resume (calls st ! i) (file_completion file (calls st ! i)) (watcher st)
                in st\<lparr>watcher := fst (snd r),
                      calls := (calls st)[i := fst r],
                      emitted := emitted st @ snd (snd r)\<rparr>)
          else st)"

fun tail_run :: "tail_event list \<Rightarrow> Tailing \<Rightarrow> Tailing" where
  "tail_run [] st = st"
| "tail_run (ev # evs) st = tail_run evs (tail_step ev st)"

definition tailing :: "FileWatcher \<Rightarrow> Tailing" where
  \<comment> \<open>no call in flight, nothing emitted yet\<close>
  "tailing fw = \<lparr>watcher = fw, calls = [], emitted = []\<rparr>"

definition tail_alone :: "string option \<Rightarrow> string option \<Rightarrow> FileWatcher \<Rightarrow> Tailing" where
  \<comment> \<open>a notification whose call runs to its end with no other call in flight:
      \<open>fs.stat\<close> finds the log as \<open>found\<close>, and the three operations after it find it as
      \<open>later\<close>\<close>
  "tail_alone found later fw =
     tail_run [Notified, Answered 0 found, Answered 0 later, Answered 0 later, Answered 0 later]
       (tailing fw)"

section \<open>The loop controller (\<open>server/loopController.ts\<close>)\<close>

datatype LoopMode = Plan | PlanSlc | PlanWork | Build

definition mode_name :: "LoopMode \<Rightarrow> string" where
  "mode_name m =
     (case m of Plan \<Rightarrow> ''plan'' | PlanSlc \<Rightarrow> ''plan-slc'' | PlanWork \<Rightarrow> ''plan-work''
      | Build \<Rightarrow> ''build'')"

record LoopStatus =
  running :: bool
  mode :: "LoopMode option"
  iteration :: nat
  maxIterations :: int
  workScope :: "string option"
  startedAt :: "nat option"
  pid :: "nat option"

text \<open>
  The options of \<open>start\<close> as their type declares them; the iteration limit is an integer,
  and an option left out is \<open>None\<close>.
\<close>

record StartOptions =
  opt_mode :: LoopMode
  opt_maxIterations :: "int option"
  opt_workScope :: "string option"

datatype signal = SIGINT | SIGKILL

text \<open>
  A call of \<open>spawn\<close>: the command, its argument list, the working directory, and the
  bindings laid over \<open>process.env\<close> for the child.
\<close>

record SpawnRequest =
  spawn_command :: string
  spawn_args :: "string list"
  spawn_cwd :: string
  env_overlay :: "(string \<times> string) list"

text \<open>
  The controller's fields \<open>projectPath\<close>, \<open>process\<close> and \<open>status\<close>, and a record of
  what it has done to the operating system: the children it spawned (a child's handle
  is its position in \<open>children\<close>), the signals it sent (child, signal, time of the
  \<open>kill\<close> call) and the times at which its pending \<open>setTimeout\<close> callbacks are due.
  Times are in milliseconds.
\<close>

record LoopController =
  lc_projectPath :: string
  process :: "nat option"
  status :: LoopStatus
  children :: "SpawnRequest list"
  signals :: "(nat \<times> signal \<times> nat) list"
  timers :: "nat list"

datatype lc_event = StatusEvent LoopStatus | LogEntryEvent LogEntry

definition new_LoopController :: "string \<Rightarrow> LoopController" where
  "new_LoopController projectPath =
     \<lparr>lc_projectPath = projectPath,
      process = None,
      status = \<lparr>running = False, mode = None, iteration = 0, maxIterations = 0,
                workScope = None, startedAt = None, pid = None\<rparr>,
      children = [], signals = [], timers = []\<rparr>"

definition getStatus :: "LoopController \<Rightarrow> LoopStatus" where
  "getStatus lc = status lc"

definition emitLog :: "string \<Rightarrow> severity \<Rightarrow> lc_event" where
  "emitLog content ty = LogEntryEvent \<lparr>entry_content = content, entry_type = ty\<rparr>"

definition max_arg :: "int option \<Rightarrow> string list" where
  \<comment> \<open>\<open>if (maxIterations) args.push(maxIterations.toString())\<close>\<close>
  "max_arg mi = (case mi of Some n \<Rightarrow> if n \<noteq> 0 then [show_int n] else [] | None \<Rightarrow> [])"

definition scope_arg :: "string option \<Rightarrow> string list" where
  \<comment> \<open>\<open>if (workScope) args.push(workScope)\<close>\<close>
  "scope_arg ws = (case ws of Some s \<Rightarrow> if s \<noteq> [] then [s] else [] | None \<Rightarrow> [])"

definition build_args :: "StartOptions \<Rightarrow> string list" where
  \<comment> \<open>the array \<open>args\<close> after the \<open>switch (mode)\<close>\<close>
  "build_args options =
     (case opt_mode options of
        Plan \<Rightarrow> ''plan'' # max_arg (opt_maxIterations options)
      | PlanSlc \<Rightarrow> ''plan-slc'' # max_arg (opt_maxIterations options)
      | PlanWork \<Rightarrow> ''plan-work'' # scope_arg (opt_workScope options)
      | Build \<Rightarrow> max_arg (opt_maxIterations options))"

definition scope_or_empty :: "string option \<Rightarrow> string" where
  \<comment> \<open>\<open>workScope || ''\<close>\<close>
  "scope_or_empty ws = (case ws of Some s \<Rightarrow> s | None \<Rightarrow> [])"

definition spawn_request :: "string \<Rightarrow> StartOptions \<Rightarrow> SpawnRequest" where
  "spawn_request projectPath options =
     \<lparr>spawn_command = ''bash'',
      spawn_args = path_join projectPath ''loop.sh'' # build_args options,
      spawn_cwd = projectPath,
      env_overlay = [(''WORK_SCOPE'', scope_or_empty (opt_workScope options))]\<rparr>"

definition start_message :: "StartOptions \<Rightarrow> string" where
  "start_message options =
     ''Starting loop: '' @ mode_name (opt_mode options) @
     (case opt_maxIterations options of
        Some n \<Rightarrow> if n \<noteq> 0 then '' (max '' @ show_int n @ '' iterations)'' else []
      | None \<Rightarrow> [])"

definition start :: "StartOptions \<Rightarrow> nat \<Rightarrow> nat option \<Rightarrow> LoopController \<Rightarrow> LoopController \<times> lc_event list" where
  \<comment> \<open>\<open>now\<close> is the clock, \<open>os_pid\<close> the \<open>pid\<close> of the child handle that \<open>spawn\<close>
      returns; the result is the new state and the events emitted, in order\<close>
  "start options now os_pid lc =
     (case process lc of
        Some active \<Rightarrow> (lc, [emitLog ''Loop already running'' Warning])
      | None \<Rightarrow>
          let st = \<lparr>running = True,
                    mode = Some (opt_mode options),
                    iteration = 0,
                    maxIterations = (case opt_maxIterations options of Some n \<Rightarrow> n | None \<Rightarrow> 0),
                    workScope = opt_workScope options,
                    startedAt = Some now,
                    pid = os_pid\<rparr>
          in (lc\<lparr>process := Some (length (children lc)),
                 status := st,
                 children := children lc @ [spawn_request (lc_projectPath lc) options]\<rparr>,
              [emitLog (start_message options) Info, StatusEvent st]))"

definition grace_period :: nat where
  "grace_period = 5000"

definition stop :: "nat \<Rightarrow> LoopController \<Rightarrow> LoopController \<times> lc_event list" where
  "stop now lc =
     (case process lc of
        None \<Rightarrow> (lc, [emitLog ''No loop running'' Warning])
      | Some child \<Rightarrow>
          (lc\<lparr>signals := signals lc @ [(child, SIGINT, now)],
              timers := timers lc @ [now + grace_period]\<rparr>,
           [emitLog ''Stopping loop...'' Info]))"

definition force_kill :: "nat \<Rightarrow> LoopController \<Rightarrow> LoopController \<times> lc_event list" where
  \<comment> \<open>the callback that \<open>stop\<close> hands to \<open>setTimeout\<close>\<close>
  "force_kill now lc =
     (case process lc of
        Some child \<Rightarrow>
          (lc\<lparr>signals := signals lc @ [(child, SIGKILL, now)]\<rparr>,
           [emitLog ''Force killing loop...'' Warning])
      | None \<Rightarrow> (lc, []))"

definition timeout :: "nat \<Rightarrow> LoopController \<Rightarrow> LoopController \<times> lc_event list" where
  \<comment> \<open>the timer phase of the event loop at time \<open>now\<close>: the oldest pending callback
      runs if it is due, and never before\<close>
  "timeout now lc =
     (case timers lc of
        [] \<Rightarrow> (lc, [])
      | due # pending \<Rightarrow>
          if due \<le> now then force_kill now (lc\<lparr>timers := pending\<rparr>) else (lc, []))"

definition exit_status :: "LoopController \<Rightarrow> LoopStatus" where
  \<comment> \<open>\<open>{ ...this.status, running: false, pid: undefined }\<close>\<close>
  "exit_status lc = (status lc)\<lparr>running := False, pid := None\<rparr>"

definition on_close :: "int option \<Rightarrow> LoopController \<Rightarrow> LoopController \<times> lc_event list" where
  \<comment> \<open>the child's \<open>close\<close> event; the exit code is \<open>null\<close> (\<open>None\<close>) after a signal\<close>
  "on_close code lc =
     (lc\<lparr>process := None, status := exit_status lc\<rparr>,
      [emitLog (''Loop exited with code '' @ (case code of Some n \<Rightarrow> show_int n | None \<Rightarrow> ''null''))
         (if code = Some 0 then Success else Error),
       StatusEvent (exit_status lc)])"

definition on_error :: "string \<Rightarrow> LoopController \<Rightarrow> LoopController \<times> lc_event list" where
  "on_error msg lc =
     (lc\<lparr>process := None, status := exit_status lc\<rparr>,
      [emitLog (''Loop error: '' @ msg) Error, StatusEvent (exit_status lc)])"

text \<open>
  The iteration marker \<open>/LOOP\s+(\d+)/i\<close>: the leftmost place where the word, white
  space and digits follow each other; \<open>\s+\<close> and \<open>\d+\<close> take all there is.
\<close>

definition loop_marker_here :: "string \<Rightarrow> string option" where
  "loop_marker_here s =
     (if toLowerCase (take 4 s) = ''loop''
      then (let digits = takeWhile is_digit (dropWhile is_space (drop 4 s)) in
            if takeWhile is_space (drop 4 s) \<noteq> [] \<and> digits \<noteq> [] then Some digits else None)
      else None)"

fun loop_marker :: "string \<Rightarrow> string option" where
  "loop_marker [] = None"
| "loop_marker (c # cs) =
     (case loop_marker_here (c # cs) of
        Some digits \<Rightarrow> Some digits
      | None \<Rightarrow> loop_marker cs)"

definition digit_of :: "char \<Rightarrow> nat" where
  "digit_of c =
     (case map_of (zip ''0123456789'' [0, 1, 2, 3, 4, 5, 6, 7, 8, 9]) c of
        Some d \<Rightarrow> d
      | None \<Rightarrow> 0)"

definition parseInt :: "string \<Rightarrow> nat" where
  \<comment> \<open>\<open>parseInt(digits, 10)\<close> on a run of decimal digits; the source computes a double,
      which is this number as long as it is below \<open>2^53\<close>\<close>
  "parseInt digits = foldl (\<lambda>acc c. 10 * acc + digit_of c) 0 digits"

fun stdout_lines :: "string list \<Rightarrow> LoopController \<Rightarrow> LoopController \<times> lc_event list" where
  "stdout_lines [] lc = (lc, [])"
| "stdout_lines (line # lines) lc =
     (case loop_marker line of
        Some digits \<Rightarrow>
          (let lc1 = lc\<lparr>status := (status lc)\<lparr>iteration := parseInt digits\<rparr>\<rparr>;
               r = stdout_lines lines lc1
           in (fst r, StatusEvent (status lc1) # emitLog line Info # snd r))
      | None \<Rightarrow>
          (let r = stdout_lines lines lc in (fst r, emitLog line Info # snd r)))"

definition on_stdout :: "string \<Rightarrow> LoopController \<Rightarrow> LoopController \<times> lc_event list" where
  "on_stdout chunk lc = stdout_lines (log_lines chunk) lc"

definition on_stderr :: "string \<Rightarrow> LoopController \<Rightarrow> LoopController \<times> lc_event list" where
  "on_stderr chunk lc = (lc, map (\<lambda>line. emitLog line Error) (log_lines chunk))"

text \<open>
  What happens to the controller, each with the time at which it happens: the calls of
  \<open>start\<close> and \<open>stop\<close>, the events of the child process, and the timer phase.
\<close>

datatype lc_input =
    Start StartOptions "nat option"
  | Stop
  | Close "int option"
  | Fail string
  | Stdout string
  | Stderr string
  | Timeout

definition lc_step :: "nat \<times> lc_input \<Rightarrow> LoopController \<Rightarrow> LoopController \<times> lc_event list" where
  "lc_step inp lc =
     (case snd inp of
        Start options os_pid \<Rightarrow> start options (fst inp) os_pid lc
      | Stop \<Rightarrow> stop (fst inp) lc
      | Close code \<Rightarrow> on_close code lc
      | Fail msg \<Rightarrow> on_error msg lc
      | Stdout chunk \<Rightarrow> on_stdout chunk lc
      | Stderr chunk \<Rightarrow> on_stderr chunk lc
      | Timeout \<Rightarrow> timeout (fst inp) lc)"

fun lc_run :: "(nat \<times> lc_input) list \<Rightarrow> LoopController \<Rightarrow> LoopController" where
  "lc_run [] lc = lc"
| "lc_run (inp # inps) lc = lc_run inps (fst (lc_step inp lc))"

section \<open>The project configuration (\<open>server/projectConfig.ts\<close>)\<close>

record ProjectConfig =
  cfg_projectPath :: string
  hasAgentsMd :: bool
  hasClaudeMd :: bool
  hasImplementationPlan :: bool
  hasSpecs :: bool
  hasCursorRules :: bool
  hasLoopSh :: bool
  enabledAgents :: "string list"

record ProjectConfigManager =
  pcm_projectPath :: string
  config :: ProjectConfig

datatype exn = Invalid_filename | ENOENT

definition isAbsolute :: "string \<Rightarrow> bool" where
  \<comment> \<open>\<open>path.isAbsolute\<close> (POSIX)\<close>
  "isAbsolute p = (case p of [] \<Rightarrow> False | c # cs \<Rightarrow> c = CHR ''/'')"

definition invalid_filename :: "string \<Rightarrow> bool" where
  \<comment> \<open>\<open>filename.includes('..') || path.isAbsolute(filename)\<close>\<close>
  "invalid_filename filename = (str_includes filename ''..'' \<or> isAbsolute filename)"

definition getConfig :: "ProjectConfigManager \<Rightarrow> ProjectConfig" where
  "getConfig pcm = config pcm"

definition readFile :: "ProjectConfigManager \<Rightarrow> string \<Rightarrow> filesystem \<Rightarrow> exn + string" where
  "readFile pcm filename fs =
     (if invalid_filename filename then Inl Invalid_filename
      else (case fs (path_join (pcm_projectPath pcm) filename) of
              Some content \<Rightarrow> Inr content
            | None \<Rightarrow> Inl ENOENT))"

text \<open>
  \<open>writeFile\<close> ends with \<open>this.refresh()\<close>, which probes the project directory and
  reads the agents out of \<open>CLAUDE.md\<close>; what it computes is a parameter here
  (\<open>refresh\<close>, a function of the filesystem). Directories are not files of the model, so
  \<open>mkdir\<close> leaves the filesystem as it is.
\<close>

definition writeFile ::
  "(filesystem \<Rightarrow> ProjectConfig) \<Rightarrow> ProjectConfigManager \<Rightarrow> string \<Rightarrow> string \<Rightarrow> filesystem
     \<Rightarrow> exn + ProjectConfigManager \<times> filesystem" where
  "writeFile refresh pcm filename content fs =
     (if invalid_filename filename then Inl Invalid_filename
      else (let fs' = fs(path_join (pcm_projectPath pcm) filename \<mapsto> content)
            in Inr (pcm\<lparr>config := refresh fs'\<rparr>, fs')))"

section \<open>The server (\<open>server/index.ts\<close>)\<close>

datatype message =
    LoopStatusMsg LoopStatus
  | LoopLogMsg LogEntry
  | TasksUpdateMsg TasksState
  | GitUpdateMsg GitStatus
  | ConfigUpdateMsg ProjectConfig
  | ConfigContentMsg string string
  | ConfigSavedMsg string

datatype ReadyState = CONNECTING | OPEN | CLOSING | CLOSED

text \<open>
  A socket of the \<open>ws\<close> library, which is not part of the repository: its state, and
  the frames handed to it that reached the observer, oldest first. A frame sent on a
  socket that is closing or closed is dropped. (A socket that the server has accepted is
  never connecting.) \<open>ws_send\<close> is the send that succeeds on an open socket; the send
  whose write fails or that throws is a case of \<open>fan_out\<close> below.
\<close>

record WebSocket =
  readyState :: ReadyState
  sent :: "message list"

definition ws_send :: "message \<Rightarrow> WebSocket \<Rightarrow> WebSocket" where
  "ws_send msg sock = (if readyState sock = OPEN then sock\<lparr>sent := sent sock @ [msg]\<rparr> else sock)"

text \<open>
  The server: the set \<open>clients\<close> in insertion order (the order in which \<open>forEach\<close>
  visits a \<open>Set\<close>), the socket objects by handle, the three services, the filesystem
  they work on, and the lines written with \<open>console.error\<close>.
\<close>

record Server =
  clients :: "nat list"
  sockets :: "nat \<Rightarrow> WebSocket"
  loopController :: LoopController
  fileWatcher :: FileWatcher
  projectConfig :: ProjectConfigManager
  files :: filesystem
  console :: "string list"

definition send_to :: "nat \<Rightarrow> message \<Rightarrow> Server \<Rightarrow> Server" where
  \<comment> \<open>\<open>ws.send(JSON.stringify(...))\<close> on one socket\<close>
  "send_to ws msg srv = srv\<lparr>sockets := (sockets srv)(ws := ws_send msg (sockets srv ws))\<rparr>"

fun broadcast_loop :: "message \<Rightarrow> nat list \<Rightarrow> (nat \<Rightarrow> WebSocket) \<Rightarrow> (nat \<Rightarrow> WebSocket)" where
  \<comment> \<open>\<open>clients.forEach((client) => { if (client.readyState === WebSocket.OPEN) client.send(data) })\<close>\<close>
  "broadcast_loop msg [] socks = socks"
| "broadcast_loop msg (client # rest) socks =
     broadcast_loop msg rest
       (if readyState (socks client) = OPEN
        then socks(client := ws_send msg (socks client))
        else socks)"

definition broadcast :: "message \<Rightarrow> Server \<Rightarrow> Server" where
  "broadcast msg srv = srv\<lparr>sockets := broadcast_loop msg (clients srv) (sockets srv)\<rparr>"

text \<open>
  How a \<open>client.send\<close> on an open socket ends is the library's affair. \<open>broadcast\<close> above
  is the fan-out when every such send succeeds. \<open>broadcast_with\<close> takes the result of
  the send on each channel as a parameter: the frame is sent; or the write fails and the
  socket reports it later, nothing being thrown; or the call throws. \<open>broadcast\<close> has no
  \<open>try\<close>, so an exception leaves \<open>forEach\<close> and \<open>broadcast\<close> at once; the first component
  of the result says whether one did.
\<close>

datatype send_result = Frame_sent | Write_error | Exception_thrown

fun fan_out :: "(nat \<Rightarrow> send_result) \<Rightarrow> message \<Rightarrow> nat list \<Rightarrow> (nat \<Rightarrow> WebSocket)
    \<Rightarrow> bool \<times> (nat \<Rightarrow> WebSocket)" where
  "fan_out result msg [] socks = (False, socks)"
| "fan_out result msg (client # rest) socks =
     (if readyState (socks client) = OPEN
      then (case result client of
              Frame_sent \<Rightarrow> fan_out result msg rest (socks(client := ws_send msg (socks client)))
            | Write_error \<Rightarrow> fan_out result msg rest socks
            | Exception_thrown \<Rightarrow> (True, socks))
      else fan_out result msg rest socks)"

definition broadcast_with :: "(nat \<Rightarrow> send_result) \<Rightarrow> message \<Rightarrow> Server \<Rightarrow> bool \<times> Server" where
  "broadcast_with result msg srv =
     (fst (fan_out result msg (clients srv) (sockets srv)),
      srv\<lparr>sockets := snd (fan_out result msg (clients srv) (sockets srv))\<rparr>)"

definition set_add :: "nat \<Rightarrow> nat list \<Rightarrow> nat list" where
  \<comment> \<open>\<open>Set.prototype.add\<close>\<close>
  "set_add x xs = (if x \<in> set xs then xs else xs @ [x])"

definition set_delete :: "nat \<Rightarrow> nat list \<Rightarrow> nat list" where
  \<comment> \<open>\<open>Set.prototype.delete\<close>\<close>
  "set_delete x xs = removeAll x xs"

definition connection :: "nat \<Rightarrow> Server \<Rightarrow> Server" where
  \<comment> \<open>the handler of \<open>wss.on('connection', (ws) => ...)\<close>, up to the registration of the
      socket's own handlers\<close>
  "connection ws srv =
     send_to ws (ConfigUpdateMsg (getConfig (projectConfig srv)))
       (send_to ws (GitUpdateMsg (getGitStatus (fileWatcher srv)))
          (send_to ws (TasksUpdateMsg (getTasks (fileWatcher srv)))
             (send_to ws (LoopStatusMsg (getStatus (loopController srv)))
                (srv\<lparr>clients := set_add ws (clients srv)\<rparr>))))"

definition ws_close :: "nat \<Rightarrow> Server \<Rightarrow> Server" where
  \<comment> \<open>the handler of \<open>ws.on('close', ...)\<close>\<close>
  "ws_close ws srv = srv\<lparr>clients := set_delete ws (clients srv)\<rparr>"

definition lc_message :: "lc_event \<Rightarrow> message" where
  \<comment> \<open>\<open>loopController.on('status', ...)\<close> and \<open>loopController.on('log', ...)\<close>\<close>
  "lc_message ev = (case ev of StatusEvent st \<Rightarrow> LoopStatusMsg st | LogEntryEvent e \<Rightarrow> LoopLogMsg e)"

definition fw_message :: "fw_event \<Rightarrow> message" where
  \<comment> \<open>\<open>fileWatcher.on('tasks', ...)\<close>, \<open>on('log', ...)\<close> and \<open>on('git', ...)\<close>\<close>
  "fw_message ev =
     (case ev of TasksEvent t \<Rightarrow> TasksUpdateMsg t | LogEvent e \<Rightarrow> LoopLogMsg e
      | GitEvent g \<Rightarrow> GitUpdateMsg g)"

fun broadcast_all :: "message list \<Rightarrow> Server \<Rightarrow> Server" where
  "broadcast_all [] srv = srv"
| "broadcast_all (msg # msgs) srv = broadcast_all msgs (broadcast msg srv)"

definition loop_input :: "nat \<times> lc_input \<Rightarrow> Server \<Rightarrow> Server" where
  \<comment> \<open>something happens to the loop controller; its events go to the observers\<close>
  "loop_input inp srv =
     (let r = lc_step inp (loopController srv)
      in broadcast_all (map lc_message (snd r)) (srv\<lparr>loopController := fst r\<rparr>))"

definition watcher_result :: "FileWatcher \<times> fw_event list \<Rightarrow> Server \<Rightarrow> Server" where
  \<comment> \<open>a method of the file watcher has run; its events go to the observers\<close>
  "watcher_result r srv = broadcast_all (map fw_message (snd r)) (srv\<lparr>fileWatcher := fst r\<rparr>)"

definition plan_changed :: "nat \<Rightarrow> Server \<Rightarrow> Server" where
  \<comment> \<open>the notifications \<open>add\<close> and \<open>change\<close> of the watcher of the checklist\<close>
  "plan_changed now srv = watcher_result (parseTasks (files srv) now (fileWatcher srv)) srv"

definition log_changed :: "Server \<Rightarrow> Server" where
  \<comment> \<open>the notifications \<open>add\<close> and \<open>change\<close> of the watcher of the log, for a call
      of \<open>tailLog\<close> that has ended before anything else happens\<close>
  "log_changed srv = watcher_result (tailLog (files srv) (fileWatcher srv)) srv"

text \<open>
  The commands of an observer that the properties below are about; the handler's other
  cases (agents, rules, plan and PRD generation, project scan) are not modelled.
\<close>

datatype ClientCommand =
    LoopStartCmd StartOptions
  | LoopStopCmd
  | ConfigReadCmd string
  | ConfigWriteCmd string string

definition handler_catch :: "Server \<Rightarrow> Server" where
  \<comment> \<open>\<open>catch (err) { console.error('Error handling message:', err) }\<close>\<close>
  "handler_catch srv = srv\<lparr>console := console srv @ [''Error handling message:'']\<rparr>"

definition ws_message ::
  "(filesystem \<Rightarrow> ProjectConfig) \<Rightarrow> nat \<Rightarrow> nat option \<Rightarrow> nat \<Rightarrow> ClientCommand \<Rightarrow> Server \<Rightarrow> Server" where
  \<comment> \<open>the handler of \<open>ws.on('message', ...)\<close> of the socket \<open>ws\<close>, at time \<open>now\<close>\<close>
  "ws_message refresh now os_pid ws cmd srv =
     (case cmd of
        LoopStartCmd options \<Rightarrow> loop_input (now, Start options os_pid) srv
      | LoopStopCmd \<Rightarrow> loop_input (now, Stop) srv
      | ConfigReadCmd file \<Rightarrow>
          (case readFile (projectConfig srv) file (files srv) of
             Inr content \<Rightarrow> send_to ws (ConfigContentMsg file content) srv
           | Inl err \<Rightarrow> handler_catch srv)
      | ConfigWriteCmd file content \<Rightarrow>
          (case writeFile refresh (projectConfig srv) file content (files srv) of
             Inr r \<Rightarrow> send_to ws (ConfigSavedMsg file) (srv\<lparr>projectConfig := fst r, files := snd r\<rparr>)
           | Inl err \<Rightarrow> handler_catch srv))"

text \<open>
  The request-response surface over the same operations: \<open>GET\<close> and \<open>POST\<close> of
  \<open>/api/config/:file\<close>, with the response that the requester receives.
\<close>

datatype http_response =
    Json_content string
  | Json_success
  | Status_404_File_not_found
  | Status_500_Failed_to_save_file

definition api_get_config :: "string \<Rightarrow> Server \<Rightarrow> http_response" where
  "api_get_config file srv =
     (case readFile (projectConfig srv) file (files srv) of
        Inr content \<Rightarrow> Json_content content
      | Inl err \<Rightarrow> Status_404_File_not_found)"

definition api_post_config ::
  "(filesystem \<Rightarrow> ProjectConfig) \<Rightarrow> string \<Rightarrow> string \<Rightarrow> Server \<Rightarrow> Server \<times> http_response" where
  "api_post_config refresh file content srv =
     (case writeFile refresh (projectConfig srv) file content (files srv) of
        Inr r \<Rightarrow> (srv\<lparr>projectConfig := fst r, files := snd r\<rparr>, Json_success)
      | Inl err \<Rightarrow> (srv, Status_500_Failed_to_save_file))"

definition new_Server :: "string \<Rightarrow> ProjectConfig \<Rightarrow> filesystem \<Rightarrow> Server" where
  \<comment> \<open>the services as the module creates them, before any observer has connected\<close>
  "new_Server projectPath cfg fs =
     \<lparr>clients = [],
      sockets = (\<lambda>ws. \<lparr>readyState = OPEN, sent = []\<rparr>),
      loopController = new_LoopController projectPath,
      fileWatcher = new_FileWatcher projectPath,
      projectConfig = \<lparr>pcm_projectPath = projectPath, config = cfg\<rparr>,
      files = fs,
      console = []\<rparr>"

section \<open>Concrete runs\<close>

text \<open>The inputs at which the theorems below are evaluated.\<close>

definition checklist_example :: string where
  "checklist_example = ''- [ ] write tests\<newline>- [x] build core\<newline>''"

definition project :: string where
  "project = ''/project''"

definition log_file :: "string \<Rightarrow> filesystem" where
  \<comment> \<open>a filesystem whose only file is the watched log, with the given content\<close>
  "log_file bytes = [logPath (new_FileWatcher project) \<mapsto> bytes]"

definition plan_file :: "string \<Rightarrow> filesystem" where
  \<comment> \<open>a filesystem whose only file is the checklist, with the given content\<close>
  "plan_file content = [planPath (new_FileWatcher project) \<mapsto> content]"

definition build_options :: StartOptions where
  "build_options = \<lparr>opt_mode = Build, opt_maxIterations = None, opt_workScope = None\<rparr>"

definition scoped_options :: StartOptions where
  "scoped_options =
     \<lparr>opt_mode = PlanWork, opt_maxIterations = None, opt_workScope = Some ''fix the login page''\<rparr>"

definition restart_trace :: "(nat \<times> lc_input) list" where
  \<comment> \<open>a run is stopped and exits within the grace period; a second run is started
      before the grace period of the first is over\<close>
  "restart_trace =
     [(0, Start build_options (Some 100)),
      (1000, Stop),
      (2000, Close None),
      (3000, Start build_options (Some 101)),
      (6000, Timeout)]"

definition default_config :: ProjectConfig where
  "default_config =
     \<lparr>cfg_projectPath = project, hasAgentsMd = False, hasClaudeMd = False,
      hasImplementationPlan = False, hasSpecs = False, hasCursorRules = False,
      hasLoopSh = False, enabledAgents = []\<rparr>"

definition two_observers :: Server where
  \<comment> \<open>the observers 0 and 1 have connected to a fresh server\<close>
  "two_observers = connection 1 (connection 0 (new_Server project default_config Map.empty))"

definition running_server :: Server where
  \<comment> \<open>observer 0 has started the loop, which has reported its third iteration\<close>
  "running_server =
     loop_input (20, Stdout ''LOOP 3 of 10\<newline>'')
       (ws_message (\<lambda>fs. default_config) 10 (Some 100) 0 (LoopStartCmd build_options) two_observers)"

definition already_running :: message where
  "already_running = LoopLogMsg \<lparr>entry_content = ''Loop already running'', entry_type = Warning\<rparr>"

definition plan_deleted :: "nat \<Rightarrow> Server" where
  \<comment> \<open>the checklist of the example has been parsed at the given time, with two observers
      connected, and the file has then been deleted\<close>
  "plan_deleted now =
     (plan_changed now (two_observers\<lparr>files := plan_file checklist_example\<rparr>))\<lparr>files := Map.empty\<rparr>"

definition half_closed :: Server where
  \<comment> \<open>the socket of observer 0 is closing, and its \<open>close\<close> event has not arrived yet\<close>
  "half_closed =
     two_observers\<lparr>sockets := (sockets two_observers)
       (0 := (sockets two_observers 0)\<lparr>readyState := CLOSING\<rparr>)\<rparr>"

definition overlapping_run :: "tail_event list" where
  \<comment> \<open>the log receives \<open>one\<close> and then \<open>two\<close>, a line each; the call of the second
      notification has its \<open>stat\<close> and its \<open>open\<close> answered before the call of the first has
      ended\<close>
  "overlapping_run =
     [Notified,
      Answered 0 (Some ''one\<newline>''),
      Notified,
      Answered 1 (Some ''one\<newline>two\<newline>''),
      Answered 0 (Some ''one\<newline>two\<newline>''),
      Answered 1 (Some ''one\<newline>two\<newline>''),
      Answered 0 (Some ''one\<newline>two\<newline>''),
      Answered 0 (Some ''one\<newline>two\<newline>''),
      Answered 1 (Some ''one\<newline>two\<newline>''),
      Answered 1 (Some ''one\<newline>two\<newline>'')]"

definition read_before :: FileWatcher where
  \<comment> \<open>the log held the line \<open>zero\<close>, which has been read\<close>
  "read_before =
     watcher (tail_alone (Some ''zero\<newline>'') (Some ''zero\<newline>'') (new_FileWatcher project))"

definition closing_and_failing :: Server where
  \<comment> \<open>three observers: the socket of observer 0 is closing\<close>
  "closing_and_failing = connection 2 half_closed"

definition write_fails_at :: "nat \<Rightarrow> nat \<Rightarrow> send_result" where
  \<comment> \<open>the write on the channel \<open>ws\<close> fails quietly, every other send succeeds\<close>
  "write_fails_at ws client = (if client = ws then Write_error else Frame_sent)"

definition send_throws_at :: "nat \<Rightarrow> nat \<Rightarrow> send_result" where
  \<comment> \<open>the send on the channel \<open>ws\<close> throws, every other send succeeds\<close>
  "send_throws_at ws client = (if client = ws then Exception_thrown else Frame_sent)"

section \<open>Properties of the file watcher\<close>

subsection \<open>Lines of a delta\<close>

lemma split_newline_not_Nil: "split_newline s \<noteq> []"
  by (induction s) (auto split: list.splits)

lemma split_newline_append:
  "split_newline (xs @ CHR 0x0A # ys) = split_newline xs @ split_newline ys"
proof (induction xs)
  case Nil
  show ?case by simp
next
  case (Cons c xs)
  obtain l ls where "split_newline xs = l # ls"
    using split_newline_not_Nil [of xs] by (cases "split_newline xs") auto
  with Cons show ?case by simp
qed

lemma trim_Nil: "trim [] = []"
  by (simp add: trim_def)

lemma log_lines_Nil: "log_lines [] = []"
  by (simp add: log_lines_def trim_Nil)

lemma log_lines_append:
  assumes "A = [] \<or> last A = CHR 0x0A"
  shows "log_lines (A @ B) = log_lines A @ log_lines B"
proof (cases "A = []")
  case True
  then show ?thesis by (simp add: log_lines_Nil)
next
  case False
  with assms have "A = butlast A @ [CHR 0x0A]"
    by (metis append_butlast_last_id)
  then obtain A' where A: "A = A' @ [CHR 0x0A]" ..
  have "split_newline (A @ B) = split_newline A' @ split_newline B"
    using split_newline_append [of A' B] by (simp add: A)
  moreover have "split_newline A = split_newline A' @ [[]]"
    using split_newline_append [of A' "[]"] by (simp add: A)
  ultimately show ?thesis
    by (simp add: log_lines_def trim_Nil)
qed

lemma emitted_lines_map: "emitted_lines (map (\<lambda>line. LogEvent (log_entry line)) ls) = ls"
  by (induction ls) (simp_all add: emitted_lines_def log_entry_def)

lemma emitted_lines_Nil: "emitted_lines [] = []"
  by (simp add: emitted_lines_def)

subsection \<open>tailLog\<close>

lemma tailLog_grow:
  assumes "fs (logPath fw) = Some (P @ D)" and "lastLogPosition fw = length P"
  shows "emitted_lines (snd (tailLog fs fw)) = log_lines D"
    and "lastLogPosition (fst (tailLog fs fw)) = length (P @ D)"
    and "logPath (fst (tailLog fs fw)) = logPath fw"
  using assms
  by (auto simp add: tailLog_def Let_def emitted_lines_map emitted_lines_Nil log_lines_Nil
      logPath_def)

text \<open>
  A file that is no longer than the retained offset is left alone: nothing is read, and
  the offset stays. Only a file that does not exist resets the offset.
\<close>

lemma tailLog_not_grown:
  assumes "fs (logPath fw) = Some bytes" and "length bytes \<le> lastLogPosition fw"
  shows "tailLog fs fw = (fw, [])"
  using assms by (simp add: tailLog_def)

lemma tailLog_absent:
  assumes "fs (logPath fw) = None"
  shows "tailLog fs fw = (fw\<lparr>lastLogPosition := 0\<rparr>, [])"
  using assms by (simp add: tailLog_def)

text \<open>
  C3. The claim: when the size of the log at a notification is below the retained offset,
  the tailer resets the offset to 0 and emits the new content from the start. The code
  does not: \<open>tailLog\<close> only acts when \<open>stat.size > this.lastLogPosition\<close>. After the two
  lines \<open>one\<close> and \<open>two\<close> (8 bytes) have been read, the file is truncated and rewritten.
  With no content yet, and with the new content \<open>new\<close> (4 bytes), nothing is emitted and
  the offset stays 8; with the new content \<open>fresh start\<close> (12 bytes) the tailer emits
  \<open>art\<close>, the bytes of the new file from the old offset on.
\<close>

theorem truncated_log_is_not_reread:
  "tailLog (log_file ''one\<newline>two\<newline>'') (new_FileWatcher project)
     = (new_FileWatcher project\<lparr>lastLogPosition := 8\<rparr>,
        [LogEvent \<lparr>entry_content = ''one'', entry_type = Info\<rparr>,
         LogEvent \<lparr>entry_content = ''two'', entry_type = Info\<rparr>])
   \<and> tailLog (log_file []) (new_FileWatcher project\<lparr>lastLogPosition := 8\<rparr>)
     = (new_FileWatcher project\<lparr>lastLogPosition := 8\<rparr>, [])
   \<and> tailLog (log_file ''new\<newline>'') (new_FileWatcher project\<lparr>lastLogPosition := 8\<rparr>)
     = (new_FileWatcher project\<lparr>lastLogPosition := 8\<rparr>, [])
   \<and> tailLog (log_file ''fresh start\<newline>'') (new_FileWatcher project\<lparr>lastLogPosition := 8\<rparr>)
     = (new_FileWatcher project\<lparr>lastLogPosition := 12\<rparr>,
        [LogEvent \<lparr>entry_content = ''art'', entry_type = Info\<rparr>])"
  by code_simp

text \<open>
  One call of \<open>tailLog\<close> taken one \<open>await\<close> at a time, with no other call in flight and
  the file as it is throughout, is the function \<open>tailLog\<close>. Bytes that are appended
  after \<open>fs.stat\<close> has answered do not change what the call does: it reads up to the
  size that \<open>fs.stat\<close> gave.
\<close>

lemma tailLog_serial:
  "tail_alone (fs (logPath fw)) (fs (logPath fw)) fw
     = \<lparr>watcher = fst (tailLog fs fw), calls = [Finished], emitted = snd (tailLog fs fw)\<rparr>"
proof (cases "fs (logPath fw)")
  case None
  then show ?thesis
    by (simp add: tail_alone_def tailing_def tail_step_def file_completion_def tail_catch_def
        tailLog_def)
next
  case (Some bytes)
  show ?thesis
  proof (cases "length bytes > lastLogPosition fw")
    case True
    then show ?thesis
      using Some
      by (simp add: tail_alone_def tailing_def tail_step_def file_completion_def tail_catch_def
          tailLog_def Let_def)
  next
    case False
    then show ?thesis
      using Some
      by (simp add: tail_alone_def tailing_def tail_step_def file_completion_def tail_catch_def
          tailLog_def Let_def)
  qed
qed

lemma tail_alone_grown:
  "tail_alone (Some bytes) (Some (bytes @ appended)) fw =
     \<lparr>watcher = fst (tailLog (\<lambda>path. Some bytes) fw), calls = [Finished],
      emitted = snd (tailLog (\<lambda>path. Some bytes) fw)\<rparr>"
proof (cases "length bytes > lastLogPosition fw")
  case True
  then show ?thesis
    by (simp add: tail_alone_def tailing_def tail_step_def file_completion_def tail_catch_def
        tailLog_def Let_def)
next
  case False
  then show ?thesis
    by (simp add: tail_alone_def tailing_def tail_step_def file_completion_def tail_catch_def
        tailLog_def Let_def)
qed

lemma tail_alone_grown2:
  "tail_alone (Some (P @ A)) (Some (P @ A @ X)) fw =
     \<lparr>watcher = fst (tailLog (\<lambda>path. Some (P @ A)) fw), calls = [Finished],
      emitted = snd (tailLog (\<lambda>path. Some (P @ A)) fw)\<rparr>"
  "tail_alone (Some (P @ A @ B)) (Some (P @ A @ B @ Y)) fw =
     \<lparr>watcher = fst (tailLog (\<lambda>path. Some (P @ A @ B)) fw), calls = [Finished],
      emitted = snd (tailLog (\<lambda>path. Some (P @ A @ B)) fw)\<rparr>"
  using tail_alone_grown [of "P @ A" X fw] tail_alone_grown [of "P @ A @ B" Y fw] by simp_all

lemma tailLog_two_deltas:
  assumes "lastLogPosition fw = length P"
    and "fs1 (logPath fw) = Some (P @ A)"
    and "fs2 (logPath fw) = Some (P @ A @ B)"
  shows "emitted_lines (snd (tailLog fs1 fw)) = log_lines A
    \<and> lastLogPosition (fst (tailLog fs1 fw)) = length (P @ A)
    \<and> emitted_lines (snd (tailLog fs2 (fst (tailLog fs1 fw)))) = log_lines B
    \<and> lastLogPosition (fst (tailLog fs2 (fst (tailLog fs1 fw)))) = length (P @ A @ B)
    \<and> emitted_lines (snd (tailLog fs2 fw)) = log_lines (A @ B)"
proof -
  let ?fw1 = "fst (tailLog fs1 fw)"
  have 1: "emitted_lines (snd (tailLog fs1 fw)) = log_lines A"
    and 2: "lastLogPosition ?fw1 = length (P @ A)"
    and 3: "logPath ?fw1 = logPath fw"
    using tailLog_grow [of fs1 fw P A] assms by simp_all
  have fs2: "fs2 (logPath ?fw1) = Some ((P @ A) @ B)"
    using assms(3) 3 by simp
  have 4: "emitted_lines (snd (tailLog fs2 ?fw1)) = log_lines B"
    and 5: "lastLogPosition (fst (tailLog fs2 ?fw1)) = length (P @ A @ B)"
    using tailLog_grow [of fs2 ?fw1 "P @ A" B] fs2 2 by simp_all
  have 6: "emitted_lines (snd (tailLog fs2 fw)) = log_lines (A @ B)"
    using tailLog_grow(1) [of fs2 fw P "A @ B"] assms by simp
  show ?thesis
    using 1 2 4 5 6 by simp
qed

text \<open>
  C4, as amended. A log of ASCII text whose first \<open>length P\<close> bytes have been read grows
  by \<open>A\<close> and then by \<open>B\<close>. The call of the first notification finds the log with \<open>A\<close>
  appended and has ended when the call of the second, which finds it with \<open>B\<close> appended
  as well, begins; what is appended while a call is under way (\<open>X\<close>, \<open>Y\<close>) is of no
  account. Each call runs to its end; the first emits the non-blank lines of \<open>A\<close> and the
  second those of \<open>B\<close>, and after each the offset is the size of the file that the call
  found. When \<open>A\<close> is empty or ends with a line feed, the lines of the two notifications
  together are the lines that one read of the final file, from the offset held before
  the first write, emits.
\<close>

theorem tailLog_two_appends:
  assumes "lastLogPosition fw = length P"
    and "ascii (P @ A @ B)"
  shows "calls (tail_alone (Some (P @ A)) (Some (P @ A @ X)) fw) = [Finished]
    \<and> emitted_lines (emitted (tail_alone (Some (P @ A)) (Some (P @ A @ X)) fw)) = log_lines A
    \<and> lastLogPosition (watcher (tail_alone (Some (P @ A)) (Some (P @ A @ X)) fw))
        = length (P @ A)
    \<and> calls (tail_alone (Some (P @ A @ B)) (Some (P @ A @ B @ Y))
               (watcher (tail_alone (Some (P @ A)) (Some (P @ A @ X)) fw))) = [Finished]
    \<and> emitted_lines (emitted (tail_alone (Some (P @ A @ B)) (Some (P @ A @ B @ Y))
               (watcher (tail_alone (Some (P @ A)) (Some (P @ A @ X)) fw)))) = log_lines B
    \<and> lastLogPosition (watcher (tail_alone (Some (P @ A @ B)) (Some (P @ A @ B @ Y))
               (watcher (tail_alone (Some (P @ A)) (Some (P @ A @ X)) fw))))
        = length (P @ A @ B)
    \<and> (A = [] \<or> last A = CHR 0x0A \<longrightarrow>
         emitted_lines (emitted (tail_alone (Some (P @ A)) (Some (P @ A @ X)) fw))
           @ emitted_lines (emitted (tail_alone (Some (P @ A @ B)) (Some (P @ A @ B @ Y))
               (watcher (tail_alone (Some (P @ A)) (Some (P @ A @ X)) fw))))
         = emitted_lines (emitted (tail_alone (Some (P @ A @ B)) (Some (P @ A @ B @ Y)) fw)))"
  using tailLog_two_deltas [of fw P "\<lambda>path. Some (P @ A)" A "\<lambda>path. Some (P @ A @ B)" B]
    assms(1) log_lines_append [of A B]
  by (simp add: tail_alone_grown2)

theorem tailLog_two_appends_witness:
  "emitted_lines (emitted (tail_alone (Some ''zero\<newline>one\<newline>'') (Some ''zero\<newline>one\<newline>two\<newline>'') read_before))
     = [''one'']
   \<and> lastLogPosition (watcher (tail_alone (Some ''zero\<newline>one\<newline>'') (Some ''zero\<newline>one\<newline>two\<newline>'')
        read_before)) = 9
   \<and> emitted_lines (emitted (tail_alone (Some ''zero\<newline>one\<newline>two\<newline>'') (Some ''zero\<newline>one\<newline>two\<newline>'')
        (watcher (tail_alone (Some ''zero\<newline>one\<newline>'') (Some ''zero\<newline>one\<newline>two\<newline>'') read_before))))
     = [''two'']
   \<and> lastLogPosition (watcher (tail_alone (Some ''zero\<newline>one\<newline>two\<newline>'') (Some ''zero\<newline>one\<newline>two\<newline>'')
        (watcher (tail_alone (Some ''zero\<newline>one\<newline>'') (Some ''zero\<newline>one\<newline>two\<newline>'') read_before))))
     = 13
   \<and> emitted_lines (emitted (tail_alone (Some ''zero\<newline>one\<newline>two\<newline>'') (Some ''zero\<newline>one\<newline>two\<newline>'')
        read_before))
     = [''one'', ''two'']"
proof -
  let ?first = "tail_alone (Some ''zero\<newline>one\<newline>'') (Some ''zero\<newline>one\<newline>two\<newline>'') read_before"
  let ?second = "tail_alone (Some ''zero\<newline>one\<newline>two\<newline>'') (Some ''zero\<newline>one\<newline>two\<newline>'') (watcher ?first)"
  let ?whole = "tail_alone (Some ''zero\<newline>one\<newline>two\<newline>'') (Some ''zero\<newline>one\<newline>two\<newline>'') read_before"
  have 0: "lastLogPosition read_before = length ''zero\<newline>''" by code_simp
  have 1: "ascii (''zero\<newline>'' @ ''one\<newline>'' @ ''two\<newline>'')" by code_simp
  have A: "log_lines ''one\<newline>'' = [''one'']" by code_simp
  have B: "log_lines ''two\<newline>'' = [''two'']" by code_simp
  have l: "''one\<newline>'' = [] \<or> last ''one\<newline>'' = CHR 0x0A" by simp
  note c = tailLog_two_appends [of read_before "''zero\<newline>''" "''one\<newline>''" "''two\<newline>''" "''two\<newline>''" "[]",
      OF 0 1]
  have e1: "emitted_lines (emitted ?first) = [''one'']" using c A by simp
  have e2: "emitted_lines (emitted ?second) = [''two'']" using c B by simp
  have p1: "lastLogPosition (watcher ?first) = 9" using c by simp
  have p2: "lastLogPosition (watcher ?second) = 13" using c by simp
  have "emitted_lines (emitted ?first) @ emitted_lines (emitted ?second)
      = emitted_lines (emitted ?whole)"
    using c l by auto
  then have w: "emitted_lines (emitted ?whole) = [''one'', ''two'']"
    unfolding e1 e2 by simp
  show ?thesis using e1 e2 p1 p2 w by simp
qed

text \<open>
  The claim as it was stated fails in five ways.
  \<^item> The first write ends inside a line: \<open>ab\<close> and then \<open>cd\<close> with a line feed are emitted
    as the two lines \<open>ab\<close> and \<open>cd\<close>, while the final file holds the one line \<open>abcd\<close>.
  \<^item> The calls overlap: the log receives the line \<open>one\<close> and then the line \<open>two\<close>, and
    the call of the second notification has compared the size with the offset before the
    call of the first has stored the new offset; the line \<open>one\<close> is emitted twice.
  \<^item> A line of white space is a line of the delta, and it is not emitted.
  \<^item> The log has been read before: the two notifications emit \<open>one\<close> and \<open>two\<close>, while
    the final file read from offset 0 also holds \<open>zero\<close>.
  \<^item> The offset is not the size of the file before the first write: 8 bytes had been
    read when the log was emptied, and the line \<open>new\<close> that is written then is not
    emitted.
\<close>

theorem two_appends_counterexample:
  "emitted_lines (emitted (tail_alone (Some ''ab'') (Some ''ab'') (new_FileWatcher project)))
     = [''ab'']
   \<and> emitted_lines (emitted (tail_alone (Some ''abcd\<newline>'') (Some ''abcd\<newline>'')
        (watcher (tail_alone (Some ''ab'') (Some ''ab'') (new_FileWatcher project)))))
     = [''cd'']
   \<and> emitted_lines (emitted (tail_alone (Some ''abcd\<newline>'') (Some ''abcd\<newline>'')
        (new_FileWatcher project)))
     = [''abcd'']
   \<and> emitted_lines (emitted (tail_run overlapping_run (tailing (new_FileWatcher project))))
     = [''one'', ''one'', ''two'']
   \<and> split_newline ''a\<newline>  \<newline>b\<newline>'' = [''a'', ''  '', ''b'', '''']
   \<and> emitted_lines (emitted (tail_alone (Some ''a\<newline>  \<newline>b\<newline>'') (Some ''a\<newline>  \<newline>b\<newline>'')
        (new_FileWatcher project)))
     = [''a'', ''b'']
   \<and> emitted_lines (emitted (tail_alone (Some ''zero\<newline>one\<newline>'') (Some ''zero\<newline>one\<newline>'') read_before))
     = [''one'']
   \<and> emitted_lines (emitted (tail_alone (Some ''zero\<newline>one\<newline>two\<newline>'') (Some ''zero\<newline>one\<newline>two\<newline>'')
        (watcher (tail_alone (Some ''zero\<newline>one\<newline>'') (Some ''zero\<newline>one\<newline>'') read_before))))
     = [''two'']
   \<and> emitted_lines (emitted (tail_alone (Some ''zero\<newline>one\<newline>two\<newline>'') (Some ''zero\<newline>one\<newline>two\<newline>'')
        (new_FileWatcher project)))
     = [''zero'', ''one'', ''two'']
   \<and> emitted_lines (emitted (tail_alone (Some ''new\<newline>'') (Some ''new\<newline>'')
        (new_FileWatcher project\<lparr>lastLogPosition := 8\<rparr>)))
     = []"
  by code_simp

subsection \<open>parseTasks\<close>

lemma dropWhile_drop_prefix:
  "j \<le> length (takeWhile P xs) \<Longrightarrow> dropWhile P (drop j xs) = dropWhile P xs"
proof (induction xs arbitrary: j)
  case Nil
  then show ?case by simp
next
  case (Cons x xs)
  then show ?case by (cases j) (auto split: if_splits)
qed

lemma trim_drop_ws:
  "j \<le> length (takeWhile is_space rest) \<Longrightarrow> trim (drop j rest) = trim rest"
  by (simp add: trim_def dropWhile_drop_prefix)

lemma toLowerCase_char_x:
  "c = CHR '' '' \<or> c = CHR ''x'' \<or> c = CHR ''X'' \<Longrightarrow>
     (toLowerCase_char c = CHR ''x'') = (c = CHR ''x'' \<or> c = CHR ''X'')"
  by (auto simp add: toLowerCase_char_def)

lemma split_example:
  "split_newline checklist_example = [''- [ ] write tests'', ''- [x] build core'', '''']"
  by (simp add: checklist_example_def)

lemma match_example:
  "match_task ''- [ ] write tests'' = Some (CHR '' '', ''write tests'')"
  "match_task ''- [x] build core'' = Some (CHR ''x'', ''build core'')"
  "match_task '''' = None"
  by (simp_all add: match_task_def is_space_def is_dot_def)

lemma show_nat_example: "show_nat 0 = ''0''" "show_nat (Suc 0) = ''1''"
  by (simp_all add: show_nat.simps digit_char_def)

lemma parse_example:
  "parse_lines (split_newline checklist_example) 0 [] =
     [\<lparr>task_id = ''task-0'', task_content = ''write tests'', task_completed = False\<rparr>,
      \<lparr>task_id = ''task-1'', task_content = ''build core'', task_completed = True\<rparr>]"
  by (simp add: split_example match_example make_task_def show_nat_example trim_def
      is_space_def toLowerCase_char_def)

text \<open>
  The matcher against the pattern as a language. What \<open>match_task\<close> returns is a reading
  of the line as a task line, with the same trimmed remainder whatever the second \<open>\s*\<close>
  took of it; a line that can be read as a task line is matched; and a line can be read
  in one way only.
\<close>

lemma backtrack_ws_sound:
  "backtrack_ws k rest = Some body \<Longrightarrow>
     \<exists>j\<le>k. body = drop j rest \<and> body \<noteq> [] \<and> list_all is_dot body"
proof (induction k)
  case 0
  then show ?case by (auto split: if_splits)
next
  case (Suc k)
  show ?case
  proof (cases "drop (Suc k) rest \<noteq> [] \<and> list_all is_dot (drop (Suc k) rest)")
    case True
    with Suc.prems have "body = drop (Suc k) rest \<and> body \<noteq> [] \<and> list_all is_dot body" by auto
    then show ?thesis by blast
  next
    case False
    with Suc.prems have "backtrack_ws k rest = Some body" by auto
    from Suc.IH [OF this] show ?thesis
      using le_Suc_eq by blast
  qed
qed

lemma backtrack_ws_complete:
  "j \<le> k \<Longrightarrow> drop j rest \<noteq> [] \<Longrightarrow> list_all is_dot (drop j rest) \<Longrightarrow>
     backtrack_ws k rest \<noteq> None"
proof (induction k)
  case 0
  then show ?case by simp
next
  case (Suc k)
  show ?case
  proof (cases "j = Suc k")
    case True
    with Suc.prems show ?thesis by simp
  next
    case False
    with Suc.prems have "j \<le> k" by simp
    from Suc.IH [OF this Suc.prems(2,3)] show ?thesis by simp
  qed
qed

lemma takeWhile_spaces_append:
  "list_all P ws \<Longrightarrow> length ws \<le> length (takeWhile P (ws @ xs))"
  by (induction ws) simp_all

lemma dropWhile_spaces_bracket:
  assumes "list_all is_space ws"
  shows "dropWhile is_space (ws @ CHR ''['' # xs) = CHR ''['' # xs"
    and "takeWhile is_space (ws @ CHR ''['' # xs) = ws"
  using assms by (induction ws) (simp_all add: is_space_def)

lemma match_task_sound:
  assumes "match_task line = Some (c, body)"
  shows "\<exists>rest. task_line line c rest \<and> trim body = trim rest"
proof -
  from assms obtain after_dash where line: "line = CHR ''-'' # after_dash"
    by (auto simp add: match_task_def split: list.splits if_splits)
  from assms line obtain rest where
    dw: "dropWhile is_space after_dash = CHR ''['' # c # CHR '']'' # rest"
    and c: "c = CHR '' '' \<or> c = CHR ''x'' \<or> c = CHR ''X''"
    and bt: "backtrack_ws (length (takeWhile is_space rest)) rest = Some body"
    by (auto simp add: match_task_def split: list.splits if_splits option.splits)
  have "after_dash = takeWhile is_space after_dash @ dropWhile is_space after_dash"
    by simp
  with dw have split: "after_dash = takeWhile is_space after_dash @ CHR ''['' # c # CHR '']'' # rest"
    by simp
  have ws: "list_all is_space (takeWhile is_space after_dash)"
    by (simp add: list_all_iff) (meson set_takeWhileD)
  from backtrack_ws_sound [OF bt] obtain j where
    j: "j \<le> length (takeWhile is_space rest)" and body: "body = drop j rest"
    and ne: "body \<noteq> []" and dots: "list_all is_dot body" by blast
  have tr: "trim body = trim rest" using j body by (simp add: trim_drop_ws)
  have "take j rest = take j (takeWhile is_space rest)"
    using j by (metis append_eq_conv_conj takeWhile_dropWhile_id take_append take_all_iff
        append_take_drop_id length_take min.absorb2 diff_is_0_eq take_0 append_Nil2)
  then have sp: "list_all is_space (take j rest)"
    by (metis in_set_takeD list_all_iff set_takeWhileD)
  have "rest = take j rest @ body" using body by simp
  with line split ws c sp ne dots have "task_line line c rest"
    unfolding task_line_def by blast
  with tr show ?thesis by blast
qed

lemma match_task_complete:
  assumes "task_line line c rest"
  shows "\<exists>body. match_task line = Some (c, body) \<and> trim body = trim rest"
proof -
  from assms obtain ws ws' body where
    line: "line = CHR ''-'' # ws @ CHR ''['' # c # CHR '']'' # rest"
    and ws: "list_all is_space ws"
    and c: "c = CHR '' '' \<or> c = CHR ''x'' \<or> c = CHR ''X''"
    and rest: "rest = ws' @ body"
    and ws': "list_all is_space ws'"
    and ne: "body \<noteq> []" and dots: "list_all is_dot body"
    unfolding task_line_def by blast
  have dw: "dropWhile is_space (ws @ CHR ''['' # c # CHR '']'' # rest) = CHR ''['' # c # CHR '']'' # rest"
    using dropWhile_spaces_bracket(1) [OF ws] .
  have k: "length ws' \<le> length (takeWhile is_space rest)"
    using takeWhile_spaces_append [OF ws'] rest by simp
  have d: "drop (length ws') rest = body" using rest by simp
  have "backtrack_ws (length (takeWhile is_space rest)) rest \<noteq> None"
  proof (rule backtrack_ws_complete [OF k])
    show "drop (length ws') rest \<noteq> []" using d ne by simp
    show "list_all is_dot (drop (length ws') rest)" using d dots by simp
  qed
  then obtain b where bt: "backtrack_ws (length (takeWhile is_space rest)) rest = Some b"
    by blast
  have m: "match_task line = Some (c, b)"
    using line dw c bt by (simp add: match_task_def)
  from match_task_sound [OF m] obtain rest' where
    tl: "task_line line c rest'" and tr: "trim b = trim rest'" by blast
  from tl obtain ws2 where
    line2: "line = CHR ''-'' # ws2 @ CHR ''['' # c # CHR '']'' # rest'" and ws2: "list_all is_space ws2"
    unfolding task_line_def by blast
  have "ws @ CHR ''['' # c # CHR '']'' # rest = ws2 @ CHR ''['' # c # CHR '']'' # rest'"
    using line line2 by simp
  then have "dropWhile is_space (ws @ CHR ''['' # c # CHR '']'' # rest)
      = dropWhile is_space (ws2 @ CHR ''['' # c # CHR '']'' # rest')" by simp
  then have "rest = rest'"
    using dropWhile_spaces_bracket(1) [OF ws] dropWhile_spaces_bracket(1) [OF ws2] by simp
  with m tr show ?thesis by blast
qed

lemma task_line_unique:
  assumes "task_line line c rest" and "task_line line c' rest'"
  shows "c = c' \<and> rest = rest'"
proof -
  from assms(1) obtain ws where
    1: "line = CHR ''-'' # ws @ CHR ''['' # c # CHR '']'' # rest" and ws: "list_all is_space ws"
    unfolding task_line_def by blast
  from assms(2) obtain ws2 where
    2: "line = CHR ''-'' # ws2 @ CHR ''['' # c' # CHR '']'' # rest'" and ws2: "list_all is_space ws2"
    unfolding task_line_def by blast
  have "dropWhile is_space (ws @ CHR ''['' # c # CHR '']'' # rest)
      = dropWhile is_space (ws2 @ CHR ''['' # c' # CHR '']'' # rest')"
    using 1 2 by simp
  then show ?thesis
    using dropWhile_spaces_bracket(1) [OF ws] dropWhile_spaces_bracket(1) [OF ws2] by simp
qed

lemma match_task_None: "match_task line = None \<longleftrightarrow> \<not> is_task_line line"
proof
  assume n: "match_task line = None"
  show "\<not> is_task_line line"
  proof
    assume "is_task_line line"
    then obtain c rest where "task_line line c rest" unfolding is_task_line_def by blast
    from match_task_complete [OF this] n show False by simp
  qed
next
  assume n: "\<not> is_task_line line"
  show "match_task line = None"
  proof (cases "match_task line")
    case None
    then show ?thesis .
  next
    case (Some p)
    obtain c body where "p = (c, body)" by (cases p)
    with Some match_task_sound [of line c body] n show ?thesis
      unfolding is_task_line_def by blast
  qed
qed

text \<open>
  The loop over the lines: one item for each line that matches, in the order of the
  lines, each with the index of its line.
\<close>

lemma make_task_of_line:
  assumes "match_task line = Some (c, body)"
  shows "task_of_line (make_task i c body) (i, line)"
proof -
  from match_task_sound [OF assms] obtain rest where
    tl: "task_line line c rest" and tr: "trim body = trim rest" by blast
  from tl have c: "c = CHR '' '' \<or> c = CHR ''x'' \<or> c = CHR ''X''"
    unfolding task_line_def by blast
  show ?thesis
    unfolding task_of_line_def
    using tl tr toLowerCase_char_x [OF c] by (auto simp add: make_task_def)
qed

lemma parse_lines_acc: "parse_lines ls i acc = acc @ parse_lines ls i []"
proof (induction ls arbitrary: i acc)
  case Nil
  show ?case by simp
next
  case (Cons l ls)
  show ?case
    using Cons.IH [of "Suc i" "case match_task l of Some (c, body) \<Rightarrow> acc @ [make_task i c body] | None \<Rightarrow> acc"]
      Cons.IH [of "Suc i" "case match_task l of Some (c, body) \<Rightarrow> [make_task i c body] | None \<Rightarrow> []"]
    by (simp split: option.splits prod.splits)
qed

lemma parse_lines_spec:
  "list_all2 task_of_line (parse_lines ls i [])
     (filter (\<lambda>p. is_task_line (snd p)) (List.enumerate i ls))"
proof (induction ls arbitrary: i)
  case Nil
  show ?case by simp
next
  case (Cons l ls)
  show ?case
  proof (cases "match_task l")
    case None
    then have "\<not> is_task_line l" by (simp add: match_task_None)
    with None Cons.IH [of "Suc i"] show ?thesis by simp
  next
    case (Some p)
    obtain c body where p: "p = (c, body)" by (cases p)
    from Some p have m: "match_task l = Some (c, body)" by simp
    then have "is_task_line l" using match_task_None [of l] by simp
    moreover have "parse_lines (l # ls) i [] = make_task i c body # parse_lines ls (Suc i) []"
      using m parse_lines_acc [of ls "Suc i" "[make_task i c body]"] by simp
    ultimately show ?thesis
      using make_task_of_line [OF m, of i] Cons.IH [of "Suc i"] by simp
  qed
qed

lemma length_filter_enumerate:
  "length (filter (\<lambda>p. P (snd p)) (List.enumerate i ls)) = length (filter P ls)"
  by (induction ls arbitrary: i) simp_all

lemma length_filter_list_all2:
  "list_all2 R xs ys \<Longrightarrow> (\<And>x y. R x y \<Longrightarrow> P x = Q y) \<Longrightarrow>
     length (filter P xs) = length (filter Q ys)"
  by (induction rule: list_all2_induct) auto

lemma task_of_line_done:
  assumes "task_of_line t p"
  shows "task_completed t = is_done_line (snd p)"
proof -
  from assms obtain c rest where tl: "task_line (snd p) c rest"
    and d: "task_completed t = (c = CHR ''x'' \<or> c = CHR ''X'')"
    unfolding task_of_line_def by blast
  show ?thesis
  proof
    assume "task_completed t"
    with d tl show "is_done_line (snd p)" unfolding is_done_line_def by blast
  next
    assume "is_done_line (snd p)"
    then obtain c' rest' where "task_line (snd p) c' rest'" and "c' = CHR ''x'' \<or> c' = CHR ''X''"
      unfolding is_done_line_def by blast
    with task_line_unique [OF tl, of c' rest'] d show "task_completed t" by simp
  qed
qed

lemma is_done_line_task: "is_done_line line \<Longrightarrow> is_task_line line"
  unfolding is_done_line_def is_task_line_def by blast

lemma parse_lines_counts:
  "length (parse_lines ls 0 []) = length (filter is_task_line ls)"
  "length (filter task_completed (parse_lines ls 0 [])) = length (filter is_done_line ls)"
proof -
  note s = parse_lines_spec [of ls 0]
  show "length (parse_lines ls 0 []) = length (filter is_task_line ls)"
    using list_all2_lengthD [OF s] by (simp add: length_filter_enumerate)
  have "length (filter task_completed (parse_lines ls 0 []))
      = length (filter (\<lambda>p. is_done_line (snd p))
          (filter (\<lambda>p. is_task_line (snd p)) (List.enumerate 0 ls)))"
    using s by (rule length_filter_list_all2) (rule task_of_line_done)
  also have "\<dots> = length (filter (\<lambda>p. is_done_line (snd p)) (List.enumerate 0 ls))"
    by (simp add: conj_commute) (metis (mono_tags, lifting) filter_cong is_done_line_task)
  finally show "length (filter task_completed (parse_lines ls 0 [])) = length (filter is_done_line ls)"
    by (simp add: length_filter_enumerate)
qed

text \<open>
  C9. The checklist is ASCII text that can be read; \<open>parseTasks\<close> retains and emits one
  snapshot. For the text of the example it has the two items \<open>write tests\<close> (not done)
  and \<open>build core\<close> (done), with the counts 1 and 2. In general the items are those of
  the lines that match the pattern, one item for each such line and in the order of the
  lines: the item of a line is done iff the bracketed character is \<open>x\<close> or \<open>X\<close>, its text
  is the trimmed remainder, and its id is \<open>task-\<close> followed by the index of the line in
  the file. \<open>total\<close> is the number of lines that match and \<open>completed\<close> the number of those
  with \<open>x\<close> or \<open>X\<close>, which are the number of items and the number of done items.
\<close>

theorem parseTasks_snapshot:
  assumes "fs (planPath fw) = Some content" and "ascii content"
  shows "(content = checklist_example \<longrightarrow>
           fw_tasks (fst (parseTasks fs now fw)) =
             \<lparr>tasks = [\<lparr>task_id = ''task-0'', task_content = ''write tests'', task_completed = False\<rparr>,
                       \<lparr>task_id = ''task-1'', task_content = ''build core'', task_completed = True\<rparr>],
              completed = 1, total = 2, tasks_lastUpdated = Some now\<rparr>)
    \<and> list_all2 task_of_line (tasks (fw_tasks (fst (parseTasks fs now fw))))
         (filter (\<lambda>p. is_task_line (snd p)) (List.enumerate 0 (split_newline content)))
    \<and> total (fw_tasks (fst (parseTasks fs now fw)))
         = length (filter is_task_line (split_newline content))
    \<and> completed (fw_tasks (fst (parseTasks fs now fw)))
         = length (filter is_done_line (split_newline content))
    \<and> total (fw_tasks (fst (parseTasks fs now fw)))
         = length (tasks (fw_tasks (fst (parseTasks fs now fw))))
    \<and> completed (fw_tasks (fst (parseTasks fs now fw)))
         = length (filter task_completed (tasks (fw_tasks (fst (parseTasks fs now fw)))))
    \<and> snd (parseTasks fs now fw) = [TasksEvent (fw_tasks (fst (parseTasks fs now fw)))]"
proof -
  let ?ts = "parse_lines (split_newline content) 0 []"
  have st: "fw_tasks (fst (parseTasks fs now fw)) =
      \<lparr>tasks = ?ts, completed = length (filter task_completed ?ts), total = length ?ts,
       tasks_lastUpdated = Some now\<rparr>"
    using assms(1) by (simp add: parseTasks_def Let_def)
  have ev: "snd (parseTasks fs now fw) = [TasksEvent (fw_tasks (fst (parseTasks fs now fw)))]"
    using assms(1) by (simp add: parseTasks_def Let_def)
  have ex: "content = checklist_example \<longrightarrow> ?ts =
      [\<lparr>task_id = ''task-0'', task_content = ''write tests'', task_completed = False\<rparr>,
       \<lparr>task_id = ''task-1'', task_content = ''build core'', task_completed = True\<rparr>]"
    by (simp add: parse_example)
  show ?thesis
    using ex ev parse_lines_spec [of "split_newline content" 0]
      parse_lines_counts [of "split_newline content"]
    by (simp add: st)
qed

theorem parseTasks_snapshot_witness:
  "fw_tasks (fst (parseTasks (plan_file checklist_example) 7 (new_FileWatcher project))) =
     \<lparr>tasks = [\<lparr>task_id = ''task-0'', task_content = ''write tests'', task_completed = False\<rparr>,
               \<lparr>task_id = ''task-1'', task_content = ''build core'', task_completed = True\<rparr>],
      completed = 1, total = 2, tasks_lastUpdated = Some 7\<rparr>"
proof -
  have 1: "plan_file checklist_example (planPath (new_FileWatcher project)) = Some checklist_example"
    by (simp add: plan_file_def)
  have 2: "ascii checklist_example" by code_simp
  from parseTasks_snapshot [of "plan_file checklist_example" "new_FileWatcher project"
      checklist_example 7] 1 2
  show ?thesis by simp
qed

text \<open>
  C10. When the checklist cannot be read at a notification, \<open>parseTasks\<close> leaves the
  watcher as it is, the retained snapshot included, and emits no event; the server is
  the same after the notification as before it, so no observer is sent anything.
\<close>

theorem parseTasks_read_failure:
  assumes "files srv (planPath (fileWatcher srv)) = None"
  shows "parseTasks (files srv) now (fileWatcher srv) = (fileWatcher srv, [])
    \<and> plan_changed now srv = srv"
  using assms by (simp add: parseTasks_def plan_changed_def watcher_result_def)

theorem parseTasks_read_failure_witness:
  "parseTasks (files (plan_deleted 7)) 8 (fileWatcher (plan_deleted 7))
     = (fileWatcher (plan_deleted 7), [])
   \<and> plan_changed 8 (plan_deleted 7) = plan_deleted 7
   \<and> total (getTasks (fileWatcher (plan_deleted 7))) = 2"
proof -
  have "files (plan_deleted 7) (planPath (fileWatcher (plan_deleted 7))) = None"
    by code_simp
  from parseTasks_read_failure [OF this, of 8]
  have "parseTasks (files (plan_deleted 7)) 8 (fileWatcher (plan_deleted 7))
     = (fileWatcher (plan_deleted 7), [])
   \<and> plan_changed 8 (plan_deleted 7) = plan_deleted 7" .
  moreover have "total (getTasks (fileWatcher (plan_deleted 7))) = 2" by code_simp
  ultimately show ?thesis by simp
qed

section \<open>Properties of the loop controller\<close>

subsection \<open>The grace period\<close>

text \<open>
  What holds of one stop of a run that no other stop precedes: until the grace period is
  over the timer does nothing, and the first timer phase after it sends one \<open>SIGKILL\<close> to
  the process that \<open>stop\<close> interrupted, if the process handle is still held.
\<close>

lemma grace_period_escalation:
  assumes "process lc = Some child" and "timers lc = []"
  shows "(t' < t + grace_period \<longrightarrow> timeout t' (fst (stop t lc)) = (fst (stop t lc), []))
    \<and> (t + grace_period \<le> t' \<longrightarrow>
         signals (fst (timeout t' (fst (stop t lc))))
           = signals lc @ [(child, SIGINT, t), (child, SIGKILL, t')]
         \<and> timers (fst (timeout t' (fst (stop t lc)))) = [])"
  using assms by (simp add: stop_def timeout_def force_kill_def)

text \<open>
  No handler disarms the timer: the exit of the process and the start of the next one
  leave the pending callbacks as they are.
\<close>

lemma exit_keeps_timers:
  "timers (fst (on_close code lc)) = timers lc"
  "timers (fst (on_error msg lc)) = timers lc"
  "timers (fst (start options now os_pid lc)) = timers lc"
  by (simp_all add: on_close_def on_error_def start_def Let_def split: option.splits)

text \<open>
  C1. The claim: the grace timer is disarmed when the process exits, so the forced kill
  never reaches a process started after the one that was stopped. The code keeps the
  timer and only tests \<open>this.process\<close> when it fires. In the run below the first child is
  stopped at 1000 and exits at 2000; a second child is started at 3000, within the grace
  period of the first. The timer of the first stop fires at 6000, finds the handle of the
  second child and sends \<open>SIGKILL\<close> to it, although \<open>stop\<close> was never called for it.
\<close>

theorem stale_timer_kills_restarted_loop:
  "signals (lc_run restart_trace (new_LoopController project))
     = [(0, SIGINT, 1000), (1, SIGKILL, 6000)]
   \<and> process (lc_run (butlast restart_trace) (new_LoopController project)) = Some 1
   \<and> pid (status (lc_run restart_trace (new_LoopController project))) = Some 101"
  by code_simp

subsection \<open>The command line\<close>

text \<open>
  C8, as amended. A start of an idle controller spawns one child, and the request is
  \<open>spawn_request\<close> of the project path and the options: the argument list and the
  environment overlay depend on the mode, the iteration limit and the scope only. The
  overlay binds \<open>WORK_SCOPE\<close> to the scope in every mode. In the mode \<open>plan-work\<close> the
  arguments are the script, \<open>plan-work\<close> and, when the scope is not empty, the scope
  itself: the scope is passed both as a positional argument and in the environment.
\<close>

theorem start_spawn_request:
  assumes "process lc = None"
  shows "children (fst (start options now os_pid lc))
           = children lc @ [spawn_request (lc_projectPath lc) options]
    \<and> env_overlay (spawn_request (lc_projectPath lc) options)
           = [(''WORK_SCOPE'', scope_or_empty (opt_workScope options))]
    \<and> (opt_mode options = PlanWork \<longrightarrow>
         spawn_args (spawn_request (lc_projectPath lc) options)
           = [path_join (lc_projectPath lc) ''loop.sh'', ''plan-work'']
             @ scope_arg (opt_workScope options))
    \<and> (opt_mode options = PlanWork \<and> opt_workScope options = Some scope \<and> scope \<noteq> [] \<longrightarrow>
         spawn_args (spawn_request (lc_projectPath lc) options)
           = [path_join (lc_projectPath lc) ''loop.sh'', ''plan-work'', scope])"
  using assms
  by (simp add: start_def Let_def spawn_request_def build_args_def scope_arg_def)

theorem start_spawn_request_witness:
  "children (fst (start scoped_options 0 (Some 100) (new_LoopController project)))
     = children (new_LoopController project)
       @ [spawn_request (lc_projectPath (new_LoopController project)) scoped_options]
   \<and> env_overlay (spawn_request (lc_projectPath (new_LoopController project)) scoped_options)
     = [(''WORK_SCOPE'', ''fix the login page'')]
   \<and> spawn_args (spawn_request (lc_projectPath (new_LoopController project)) scoped_options)
     = [''/project/loop.sh'', ''plan-work'', ''fix the login page'']"
proof -
  have idle: "process (new_LoopController project) = None"
    by (simp add: new_LoopController_def)
  have scoped: "opt_mode scoped_options = PlanWork
      \<and> opt_workScope scoped_options = Some ''fix the login page''
      \<and> ''fix the login page'' \<noteq> []"
    by (simp add: scoped_options_def)
  have path: "path_join (lc_projectPath (new_LoopController project)) ''loop.sh'' = ''/project/loop.sh''"
    by (simp add: path_join_def new_LoopController_def project_def)
  from start_spawn_request [OF idle, of scoped_options 0 "Some 100" "''fix the login page''"]
    scoped path
  show ?thesis by (simp add: scope_or_empty_def scope_arg_def)
qed

text \<open>
  The claim as it was stated fails: the scope text of a \<open>plan-work\<close> start is an element
  of the argument list.
\<close>

theorem scope_in_argument_list:
  "spawn_args (last (children (fst (start scoped_options 0 (Some 100) (new_LoopController project)))))
     = [''/project/loop.sh'', ''plan-work'', ''fix the login page'']"
  by code_simp

section \<open>Properties of the server\<close>

subsection \<open>The fan-out\<close>

lemma readyState_ws_send: "readyState (ws_send msg sock) = readyState sock"
  by (simp add: ws_send_def)

lemma readyState_broadcast_loop:
  "readyState (broadcast_loop msg cs socks c) = readyState (socks c)"
  by (induction cs arbitrary: socks) (simp_all add: readyState_ws_send)

lemma sent_broadcast_loop:
  "distinct cs \<Longrightarrow>
   sent (broadcast_loop msg cs socks c) =
     (if c \<in> set cs \<and> readyState (socks c) = OPEN then sent (socks c) @ [msg] else sent (socks c))"
proof (induction cs arbitrary: socks)
  case Nil
  show ?case by simp
next
  case (Cons x rest)
  let ?socks = "if readyState (socks x) = OPEN then socks(x := ws_send msg (socks x)) else socks"
  from Cons.prems have d: "distinct rest" and x: "x \<notin> set rest" by simp_all
  have step: "sent (broadcast_loop msg (x # rest) socks c) =
      (if c \<in> set rest \<and> readyState (?socks c) = OPEN then sent (?socks c) @ [msg]
       else sent (?socks c))"
    using Cons.IH [OF d, of ?socks] by simp
  show ?case
  proof (cases "c = x")
    case True
    with x step show ?thesis by (simp add: ws_send_def)
  next
    case False
    with step show ?thesis by simp
  qed
qed

lemma clients_broadcast: "clients (broadcast msg srv) = clients srv"
  by (simp add: broadcast_def)

lemma readyState_broadcast:
  "readyState (sockets (broadcast msg srv) c) = readyState (sockets srv c)"
  by (simp add: broadcast_def readyState_broadcast_loop)

lemma sent_broadcast:
  "distinct (clients srv) \<Longrightarrow>
   sent (sockets (broadcast msg srv) c) =
     (if c \<in> set (clients srv) \<and> readyState (sockets srv c) = OPEN
      then sent (sockets srv c) @ [msg] else sent (sockets srv c))"
  by (simp add: broadcast_def sent_broadcast_loop)

lemma broadcast_others:
  "loopController (broadcast msg srv) = loopController srv"
  "fileWatcher (broadcast msg srv) = fileWatcher srv"
  "projectConfig (broadcast msg srv) = projectConfig srv"
  "files (broadcast msg srv) = files srv"
  "console (broadcast msg srv) = console srv"
  by (simp_all add: broadcast_def)

lemma clients_broadcast_all: "clients (broadcast_all msgs srv) = clients srv"
  by (induction msgs arbitrary: srv) (simp_all add: clients_broadcast)

lemma readyState_broadcast_all:
  "readyState (sockets (broadcast_all msgs srv) c) = readyState (sockets srv c)"
  by (induction msgs arbitrary: srv) (simp_all add: readyState_broadcast)

lemma sent_broadcast_all:
  "distinct (clients srv) \<Longrightarrow>
   sent (sockets (broadcast_all msgs srv) c) =
     (if c \<in> set (clients srv) \<and> readyState (sockets srv c) = OPEN
      then sent (sockets srv c) @ msgs else sent (sockets srv c))"
proof (induction msgs arbitrary: srv)
  case Nil
  show ?case by simp
next
  case (Cons m msgs)
  have "distinct (clients (broadcast m srv))"
    using Cons.prems by (simp add: clients_broadcast)
  from Cons.IH [OF this] show ?case
    using Cons.prems by (simp add: clients_broadcast readyState_broadcast sent_broadcast)
qed

text \<open>
  The fan-out with the result of each send as a parameter. When every send succeeds it is
  \<open>broadcast\<close>.
\<close>

lemma fan_out_all_sent:
  "fan_out (\<lambda>client. Frame_sent) msg cs socks = (False, broadcast_loop msg cs socks)"
  by (induction cs arbitrary: socks) simp_all

lemma broadcast_with_all_sent:
  "broadcast_with (\<lambda>client. Frame_sent) msg srv = (False, broadcast msg srv)"
  by (simp add: broadcast_with_def broadcast_def fan_out_all_sent)

lemma readyState_fan_out:
  "readyState (snd (fan_out result msg cs socks) c) = readyState (socks c)"
proof (induction cs arbitrary: socks)
  case Nil
  show ?case by simp
next
  case (Cons x rest)
  show ?case
    by (cases "result x") (simp_all add: Cons.IH readyState_ws_send)
qed

lemma fan_out_no_exception:
  "\<forall>c \<in> set cs. readyState (socks c) = OPEN \<longrightarrow> result c \<noteq> Exception_thrown \<Longrightarrow>
   fst (fan_out result msg cs socks) = False"
proof (induction cs arbitrary: socks)
  case Nil
  show ?case by simp
next
  case (Cons x rest)
  have 1: "\<forall>c \<in> set rest. readyState (socks c) = OPEN \<longrightarrow> result c \<noteq> Exception_thrown"
    using Cons.prems by simp
  have 2: "\<forall>c \<in> set rest. readyState ((socks(x := ws_send msg (socks x))) c) = OPEN
      \<longrightarrow> result c \<noteq> Exception_thrown"
    using Cons.prems by (simp add: readyState_ws_send)
  have here: "readyState (socks x) = OPEN \<longrightarrow> result x \<noteq> Exception_thrown"
    using Cons.prems by simp
  show ?case
    using here by (cases "result x") (simp_all add: Cons.IH [OF 1] Cons.IH [OF 2])
qed

lemma sent_fan_out:
  assumes "distinct cs"
    and "\<forall>c \<in> set cs. readyState (socks c) = OPEN \<longrightarrow> result c \<noteq> Exception_thrown"
  shows "sent (snd (fan_out result msg cs socks) c) =
          (if c \<in> set cs \<and> readyState (socks c) = OPEN \<and> result c = Frame_sent
           then sent (socks c) @ [msg] else sent (socks c))"
  using assms
proof (induction cs arbitrary: socks)
  case Nil
  show ?case by simp
next
  case (Cons x rest)
  from Cons.prems have d: "distinct rest" and x: "x \<notin> set rest" by simp_all
  let ?socks = "if readyState (socks x) = OPEN \<and> result x = Frame_sent
    then socks(x := ws_send msg (socks x)) else socks"
  have nothrow: "readyState (socks x) = OPEN \<longrightarrow> result x \<noteq> Exception_thrown"
    using Cons.prems(2) by simp
  have same: "fan_out result msg (x # rest) socks = fan_out result msg rest ?socks"
    using nothrow by (cases "result x") simp_all
  have q: "\<forall>c \<in> set rest. readyState (?socks c) = OPEN \<longrightarrow> result c \<noteq> Exception_thrown"
    using Cons.prems(2) by (simp add: readyState_ws_send)
  have step: "sent (snd (fan_out result msg (x # rest) socks) c) =
      (if c \<in> set rest \<and> readyState (?socks c) = OPEN \<and> result c = Frame_sent
       then sent (?socks c) @ [msg] else sent (?socks c))"
    unfolding same using Cons.IH [OF d q] .
  show ?case
  proof (cases "c = x")
    case True
    with x step show ?thesis by (simp add: ws_send_def)
  next
    case False
    with step show ?thesis by simp
  qed
qed

text \<open>
  C5, as amended. An event is fanned out, and no send on an open channel throws. A
  channel on which the send fails, because it is closing or closed and is skipped or
  because the write fails on the open socket, keeps no other channel from the event:
  every subscribed channel that is open and whose own send succeeds receives it, once,
  and nothing else changes on any channel. The fan-out removes no channel: the
  subscriber set is the same after it. A channel leaves the set when its own \<open>close\<close>
  event is handled.
\<close>

theorem fan_out_isolates_failures:
  assumes "distinct (clients srv)"
    and "\<forall>c \<in> set (clients srv). readyState (sockets srv c) = OPEN \<longrightarrow> result c \<noteq> Exception_thrown"
  shows "fst (broadcast_with result msg srv) = False
    \<and> clients (snd (broadcast_with result msg srv)) = clients srv
    \<and> (\<forall>c. sent (sockets (snd (broadcast_with result msg srv)) c) =
          (if c \<in> set (clients srv) \<and> readyState (sockets srv c) = OPEN \<and> result c = Frame_sent
           then sent (sockets srv c) @ [msg] else sent (sockets srv c)))
    \<and> set (clients (ws_close ws srv)) = set (clients srv) - {ws}"
  using fan_out_no_exception [OF assms(2), of msg] sent_fan_out [OF assms, of msg]
  by (auto simp add: broadcast_with_def ws_close_def set_delete_def)

theorem fan_out_isolates_failures_witness:
  "fst (broadcast_with (write_fails_at 1) already_running closing_and_failing) = False
   \<and> clients (snd (broadcast_with (write_fails_at 1) already_running closing_and_failing)) = [0, 1, 2]
   \<and> sent (sockets (snd (broadcast_with (write_fails_at 1) already_running closing_and_failing)) 2)
       = sent (sockets closing_and_failing 2) @ [already_running]
   \<and> set (clients (ws_close 0 closing_and_failing)) = {1, 2}"
proof -
  have d: "distinct (clients closing_and_failing)" by code_simp
  have c: "clients closing_and_failing = [0, 1, 2]" by code_simp
  have q: "\<forall>c \<in> set (clients closing_and_failing).
      readyState (sockets closing_and_failing c) = OPEN \<longrightarrow> write_fails_at 1 c \<noteq> Exception_thrown"
    by (simp add: write_fails_at_def)
  have r2: "readyState (sockets closing_and_failing 2) = OPEN" by code_simp
  have w2: "write_fails_at 1 2 = Frame_sent" by (simp add: write_fails_at_def)
  note b = fan_out_isolates_failures [OF d q, of already_running 0]
  have 1: "fst (broadcast_with (write_fails_at 1) already_running closing_and_failing) = False"
    using b by simp
  have 2: "clients (snd (broadcast_with (write_fails_at 1) already_running closing_and_failing)) = [0, 1, 2]"
    using b c by simp
  have 3: "sent (sockets (snd (broadcast_with (write_fails_at 1) already_running closing_and_failing)) 2)
       = sent (sockets closing_and_failing 2) @ [already_running]"
    using b c r2 w2 by simp
  have 4: "set (clients (ws_close 0 closing_and_failing)) = {1, 2}"
    using b c by auto
  show ?thesis using 1 2 3 4 by simp
qed

text \<open>
  The claim as it was stated fails in two ways. With three observers, the channel of
  observer 0 closing and the write to observer 1 failing, both channels are still in the
  subscriber set after the fan-out of an event that reached neither. And a failure is
  isolated only as long as \<open>send\<close> does not throw: \<open>broadcast\<close> has no \<open>try\<close>, so with two
  observers and a send to observer 0 that throws, the fan-out ends there and observer 1
  does not receive the event.
\<close>

theorem failing_channels_stay_subscribed:
  "readyState (sockets closing_and_failing 0) = CLOSING
   \<and> write_fails_at 1 1 = Write_error
   \<and> clients (snd (broadcast_with (write_fails_at 1) already_running closing_and_failing)) = [0, 1, 2]
   \<and> sent (sockets (snd (broadcast_with (write_fails_at 1) already_running closing_and_failing)) 0)
       = sent (sockets closing_and_failing 0)
   \<and> sent (sockets (snd (broadcast_with (write_fails_at 1) already_running closing_and_failing)) 1)
       = sent (sockets closing_and_failing 1)
   \<and> fst (broadcast_with (send_throws_at 0) already_running two_observers) = True
   \<and> sent (sockets (snd (broadcast_with (send_throws_at 0) already_running two_observers)) 1)
       = sent (sockets two_observers 1)"
  by code_simp

text \<open>
  The list \<open>clients\<close> stands for a set: it starts empty, only the handlers of \<open>connection\<close>
  and \<open>close\<close> change it, and they keep it free of repetitions.
\<close>

lemma clients_preserved:
  "clients (loop_input inp srv) = clients srv"
  "clients (plan_changed now srv) = clients srv"
  "clients (log_changed srv) = clients srv"
  "clients (ws_message refresh now os_pid ws cmd srv) = clients srv"
  by (simp_all add: loop_input_def plan_changed_def log_changed_def watcher_result_def
      ws_message_def Let_def clients_broadcast_all send_to_def handler_catch_def
      split: ClientCommand.splits sum.splits)

lemma distinct_clients:
  "distinct (clients (new_Server projectPath cfg fs))"
  "distinct (clients srv) \<Longrightarrow> distinct (clients (connection ws srv))"
  "distinct (clients srv) \<Longrightarrow> distinct (clients (ws_close ws srv))"
  by (simp_all add: new_Server_def connection_def send_to_def set_add_def ws_close_def
      set_delete_def distinct_removeAll)

subsection \<open>A new observer\<close>

lemma distinct_set_add: "distinct xs \<Longrightarrow> distinct (set_add x xs)"
  by (simp add: set_add_def)

lemma set_set_add: "set (set_add x xs) = insert x (set xs)"
  by (auto simp add: set_add_def)

lemma clients_connection: "clients (connection ws srv) = set_add ws (clients srv)"
  by (simp add: connection_def send_to_def)

lemma readyState_connection:
  "readyState (sockets (connection ws srv) c) = readyState (sockets srv c)"
  by (simp add: connection_def send_to_def readyState_ws_send)

lemma sent_connection:
  "readyState (sockets srv ws) = OPEN \<Longrightarrow>
   sent (sockets (connection ws srv) ws) = sent (sockets srv ws) @
     [LoopStatusMsg (getStatus (loopController srv)),
      TasksUpdateMsg (getTasks (fileWatcher srv)),
      GitUpdateMsg (getGitStatus (fileWatcher srv)),
      ConfigUpdateMsg (getConfig (projectConfig srv))]"
  by (simp add: connection_def send_to_def ws_send_def)

text \<open>
  An input of the loop changes the controller by \<open>lc_step\<close> and leaves the state of every
  socket as it is; it sends nothing to a socket that is not subscribed. Output of the
  loop leaves the flag \<open>running\<close> as \<open>start\<close> has set it.
\<close>

lemma loopController_broadcast_all:
  "loopController (broadcast_all msgs srv) = loopController srv"
  by (induction msgs arbitrary: srv) (simp_all add: broadcast_others)

lemma loopController_loop_input:
  "loopController (loop_input inp srv) = fst (lc_step inp (loopController srv))"
  by (simp add: loop_input_def Let_def loopController_broadcast_all)

lemma readyState_loop_input:
  "readyState (sockets (loop_input inp srv) c) = readyState (sockets srv c)"
  by (simp add: loop_input_def Let_def readyState_broadcast_all)

lemma sent_loop_input_other:
  "distinct (clients srv) \<Longrightarrow> c \<notin> set (clients srv) \<Longrightarrow>
   sent (sockets (loop_input inp srv) c) = sent (sockets srv c)"
  by (simp add: loop_input_def Let_def sent_broadcast_all)

lemma running_stdout_lines:
  "running (status (fst (stdout_lines lines lc))) = running (status lc)"
  by (induction lines arbitrary: lc) (simp_all add: Let_def split: option.splits)

lemma running_after_start:
  "process lc = None \<Longrightarrow>
   running (status (fst (on_stdout chunk (fst (start options now os_pid lc))))) = True"
  by (simp add: on_stdout_def running_stdout_lines start_def Let_def)

text \<open>
  C7. An observer connects on an open socket on which nothing has been sent. What it
  receives starts with the status that the loop controller holds at that moment, the
  checklist and the repository status that the file watcher holds (and the
  configuration), in this order; every event broadcast afterwards comes after them.
  During a run, that is when the status held says \<open>running\<close>, the first frame is a status
  that says \<open>running\<close> and carries the iteration held; it is there when the handler of
  the connection returns, before any further input of the loop. In particular, when an
  idle server starts the loop and the loop writes output (ASCII text), an observer who
  connects then receives first a status that says \<open>running\<close>, with the iteration that
  the controller holds after that output.
\<close>

theorem connection_snapshots_first:
  assumes "readyState (sockets srv ws) = OPEN"
    and "sent (sockets srv ws) = []"
    and "distinct (clients srv)"
  shows "sent (sockets (broadcast_all msgs (connection ws srv)) ws) =
           [LoopStatusMsg (status (loopController srv)),
            TasksUpdateMsg (fw_tasks (fileWatcher srv)),
            GitUpdateMsg (gitStatus (fileWatcher srv)),
            ConfigUpdateMsg (config (projectConfig srv))] @ msgs
    \<and> (running (status (loopController srv)) \<longrightarrow>
         (\<exists>st. sent (sockets (connection ws srv) ws) ! 0 = LoopStatusMsg st
            \<and> running st \<and> iteration st = iteration (status (loopController srv))))
    \<and> (process (loopController srv) = None \<and> ws \<notin> set (clients srv) \<and> ascii chunk \<longrightarrow>
         (\<exists>st. sent (sockets (connection ws
                   (loop_input (later, Stdout chunk) (loop_input (now, Start options os_pid) srv))) ws) ! 0
                 = LoopStatusMsg st
            \<and> running st
            \<and> iteration st = iteration (status (loopController
                   (loop_input (later, Stdout chunk) (loop_input (now, Start options os_pid) srv))))))"
proof -
  have d: "distinct (clients (connection ws srv))"
    using assms(3) by (simp add: clients_connection distinct_set_add)
  have m: "ws \<in> set (clients (connection ws srv))"
    by (simp add: clients_connection set_set_add)
  have "sent (sockets (broadcast_all msgs (connection ws srv)) ws) =
      sent (sockets (connection ws srv) ws) @ msgs"
    using sent_broadcast_all [OF d, of msgs ws] m assms(1)
    by (simp add: readyState_connection)
  then have 1: "sent (sockets (broadcast_all msgs (connection ws srv)) ws) =
           [LoopStatusMsg (status (loopController srv)),
            TasksUpdateMsg (fw_tasks (fileWatcher srv)),
            GitUpdateMsg (gitStatus (fileWatcher srv)),
            ConfigUpdateMsg (config (projectConfig srv))] @ msgs"
    using sent_connection [OF assms(1)] assms(2)
    by (simp add: getStatus_def getTasks_def getGitStatus_def getConfig_def)
  have 2: "running (status (loopController srv)) \<longrightarrow>
         (\<exists>st. sent (sockets (connection ws srv) ws) ! 0 = LoopStatusMsg st
            \<and> running st \<and> iteration st = iteration (status (loopController srv)))"
    using sent_connection [OF assms(1)] assms(2) by (simp add: getStatus_def)
  let ?started = "loop_input (now, Start options os_pid) srv"
  let ?srv = "loop_input (later, Stdout chunk) ?started"
  have 3: "\<exists>st. sent (sockets (connection ws ?srv) ws) ! 0 = LoopStatusMsg st
            \<and> running st \<and> iteration st = iteration (status (loopController ?srv))"
    if idle: "process (loopController srv) = None" and new: "ws \<notin> set (clients srv)"
  proof -
    have o: "readyState (sockets ?srv ws) = OPEN"
      using assms(1) by (simp add: readyState_loop_input)
    have "sent (sockets ?started ws) = []"
      using sent_loop_input_other [OF assms(3) new] assms(2) by simp
    moreover have "distinct (clients ?started)" "ws \<notin> set (clients ?started)"
      using assms(3) new by (simp_all add: clients_preserved)
    ultimately have e: "sent (sockets ?srv ws) = []"
      using sent_loop_input_other [of ?started ws] by simp
    have r: "running (status (loopController ?srv))"
      using running_after_start [OF idle]
      by (simp add: loopController_loop_input lc_step_def)
    show ?thesis
      using sent_connection [OF o] e r by (simp add: getStatus_def)
  qed
  show ?thesis using 1 2 3 by blast
qed

theorem connection_snapshots_first_witness:
  "sent (sockets (broadcast_all [already_running] (connection 2 running_server)) 2) =
     [LoopStatusMsg \<lparr>running = True, mode = Some Build, iteration = 3, maxIterations = 0,
                     workScope = None, startedAt = Some 10, pid = Some 100\<rparr>,
      TasksUpdateMsg \<lparr>tasks = [], completed = 0, total = 0, tasks_lastUpdated = None\<rparr>,
      GitUpdateMsg \<lparr>branch = ''main'', uncommittedCount = 0, commits = [],
                    git_lastUpdated = None, remoteUrl = None, repoName = None\<rparr>,
      ConfigUpdateMsg default_config,
      already_running]
   \<and> (\<exists>st. sent (sockets (connection 2 running_server) 2) ! 0 = LoopStatusMsg st
        \<and> running st \<and> iteration st = 3)
   \<and> (\<exists>st. sent (sockets (connection 2
               (loop_input (20, Stdout ''LOOP 3 of 10\<newline>'')
                  (loop_input (10, Start build_options (Some 100)) two_observers))) 2) ! 0
             = LoopStatusMsg st
        \<and> running st \<and> iteration st = 3)"
proof -
  have 1: "readyState (sockets running_server 2) = OPEN" by code_simp
  have 2: "sent (sockets running_server 2) = []" by code_simp
  have 3: "distinct (clients running_server)" by code_simp
  have 4: "status (loopController running_server) =
      \<lparr>running = True, mode = Some Build, iteration = 3, maxIterations = 0,
       workScope = None, startedAt = Some 10, pid = Some 100\<rparr>" by code_simp
  have 5: "fw_tasks (fileWatcher running_server) =
      \<lparr>tasks = [], completed = 0, total = 0, tasks_lastUpdated = None\<rparr>" by code_simp
  have 6: "gitStatus (fileWatcher running_server) =
      \<lparr>branch = ''main'', uncommittedCount = 0, commits = [],
       git_lastUpdated = None, remoteUrl = None, repoName = None\<rparr>" by code_simp
  have 7: "config (projectConfig running_server) = default_config" by code_simp
  from connection_snapshots_first [OF 1 2 3, where msgs = "[already_running]"]
  have "sent (sockets (broadcast_all [already_running] (connection 2 running_server)) 2) =
           [LoopStatusMsg (status (loopController running_server)),
            TasksUpdateMsg (fw_tasks (fileWatcher running_server)),
            GitUpdateMsg (gitStatus (fileWatcher running_server)),
            ConfigUpdateMsg (config (projectConfig running_server))] @ [already_running]"
    by (rule conjunct1)
  then have a: "sent (sockets (broadcast_all [already_running] (connection 2 running_server)) 2) =
     [LoopStatusMsg \<lparr>running = True, mode = Some Build, iteration = 3, maxIterations = 0,
                     workScope = None, startedAt = Some 10, pid = Some 100\<rparr>,
      TasksUpdateMsg \<lparr>tasks = [], completed = 0, total = 0, tasks_lastUpdated = None\<rparr>,
      GitUpdateMsg \<lparr>branch = ''main'', uncommittedCount = 0, commits = [],
                    git_lastUpdated = None, remoteUrl = None, repoName = None\<rparr>,
      ConfigUpdateMsg default_config,
      already_running]"
    by (simp add: 4 5 6 7)
  have r: "running (status (loopController running_server))"
    and i: "iteration (status (loopController running_server)) = 3"
    by (simp_all add: 4)
  from connection_snapshots_first [OF 1 2 3, where msgs = "[]"] r
  have "\<exists>st. sent (sockets (connection 2 running_server) 2) ! 0 = LoopStatusMsg st
        \<and> running st \<and> iteration st = iteration (status (loopController running_server))"
    by blast
  then have m: "\<exists>st. sent (sockets (connection 2 running_server) 2) ! 0 = LoopStatusMsg st
        \<and> running st \<and> iteration st = 3"
    by (simp only: i)
  have 8: "readyState (sockets two_observers 2) = OPEN" by code_simp
  have 9: "sent (sockets two_observers 2) = []" by code_simp
  have 10: "distinct (clients two_observers)" by code_simp
  have 11: "process (loopController two_observers) = None \<and> 2 \<notin> set (clients two_observers)
      \<and> ascii ''LOOP 3 of 10\<newline>''"
    by code_simp
  have 12: "iteration (status (loopController
      (loop_input (20, Stdout ''LOOP 3 of 10\<newline>'')
         (loop_input (10, Start build_options (Some 100)) two_observers)))) = 3"
    by code_simp
  from connection_snapshots_first [OF 8 9 10, where msgs = "[]" and later = 20
      and chunk = "''LOOP 3 of 10\<newline>''" and now = 10 and options = build_options
      and os_pid = "Some 100"] 11
  have "\<exists>st. sent (sockets (connection 2
               (loop_input (20, Stdout ''LOOP 3 of 10\<newline>'')
                  (loop_input (10, Start build_options (Some 100)) two_observers))) 2) ! 0
             = LoopStatusMsg st
        \<and> running st
        \<and> iteration st = iteration (status (loopController
               (loop_input (20, Stdout ''LOOP 3 of 10\<newline>'')
                  (loop_input (10, Start build_options (Some 100)) two_observers))))"
    by blast
  then have b: "\<exists>st. sent (sockets (connection 2
               (loop_input (20, Stdout ''LOOP 3 of 10\<newline>'')
                  (loop_input (10, Start build_options (Some 100)) two_observers))) 2) ! 0
             = LoopStatusMsg st
        \<and> running st \<and> iteration st = 3"
    by (simp only: 12)
  show ?thesis using a m b by blast
qed

subsection \<open>A start during a run\<close>

lemma start_active:
  "process lc = Some child \<Longrightarrow>
   start options now os_pid lc = (lc, [emitLog ''Loop already running'' Warning])"
  by (simp add: start_def)

text \<open>
  C2, as amended. A start while a process handle is held leaves the controller as it
  is: no child is spawned, the status is not changed and no status event is emitted. Its
  one effect is a log entry of severity warning, \<open>Loop already running\<close>, which the
  server broadcasts like every other log entry: each subscribed observer whose channel is
  open receives it, the requester and the others alike.
\<close>

theorem start_while_running:
  assumes "process (loopController srv) = Some child"
    and "distinct (clients srv)"
  shows "start options now os_pid (loopController srv)
           = (loopController srv, [emitLog ''Loop already running'' Warning])
    \<and> loopController (ws_message refresh now os_pid ws (LoopStartCmd options) srv)
        = loopController srv
    \<and> (\<forall>c. sent (sockets (ws_message refresh now os_pid ws (LoopStartCmd options) srv) c) =
          (if c \<in> set (clients srv) \<and> readyState (sockets srv c) = OPEN
           then sent (sockets srv c) @ [already_running] else sent (sockets srv c)))"
proof -
  have s: "start options now os_pid (loopController srv)
      = (loopController srv, [emitLog ''Loop already running'' Warning])"
    using assms(1) by (rule start_active)
  have w: "ws_message refresh now os_pid ws (LoopStartCmd options) srv
      = broadcast already_running srv"
    by (simp add: ws_message_def loop_input_def lc_step_def s lc_message_def emitLog_def
        already_running_def)
  show ?thesis
    using assms(2) by (simp add: s w broadcast_others sent_broadcast)
qed

theorem start_while_running_witness:
  "start build_options 30 (Some 101) (loopController running_server)
     = (loopController running_server, [emitLog ''Loop already running'' Warning])
   \<and> loopController (ws_message (\<lambda>fs. default_config) 30 (Some 101) 0
        (LoopStartCmd build_options) running_server)
     = loopController running_server
   \<and> sent (sockets (ws_message (\<lambda>fs. default_config) 30 (Some 101) 0
        (LoopStartCmd build_options) running_server) 0)
     = sent (sockets running_server 0) @ [already_running]"
proof -
  have p: "process (loopController running_server) = Some 0" by code_simp
  have d: "distinct (clients running_server)" by code_simp
  have c: "clients running_server = [0, 1]" by code_simp
  have r: "readyState (sockets running_server 0) = OPEN" by code_simp
  note s = start_while_running [OF p d, of build_options 30 "Some 101" "\<lambda>fs. default_config" 0]
  have "sent (sockets (ws_message (\<lambda>fs. default_config) 30 (Some 101) 0
        (LoopStartCmd build_options) running_server) 0)
     = sent (sockets running_server 0) @ [already_running]"
    using s c r by simp
  with s show ?thesis by simp
qed

text \<open>
  The claim as it was stated fails: observer 0 asks for a start during a run, and
  observer 1, who asked for nothing, receives the warning as well.
\<close>

theorem start_while_running_reaches_other_observer:
  "sent (sockets (ws_message (\<lambda>fs. default_config) 30 (Some 101) 0
          (LoopStartCmd build_options) running_server) 1)
     = sent (sockets running_server 1) @ [already_running]"
  by code_simp

subsection \<open>Document names\<close>

text \<open>
  A name that contains \<open>..\<close> or is absolute is rejected before the filesystem is
  touched, by \<open>readFile\<close> and by \<open>writeFile\<close>. The request-response surface answers such a
  request with an error; the handler of the observer's message catches the exception,
  writes to the server's console and sends nothing.
\<close>

lemma invalid_filename_rejected:
  assumes "invalid_filename file"
  shows "readFile pcm file fs = Inl Invalid_filename"
    and "writeFile refresh pcm file content fs = Inl Invalid_filename"
    and "ws_message refresh now os_pid ws (ConfigWriteCmd file content) srv = handler_catch srv"
    and "ws_message refresh now os_pid ws (ConfigReadCmd file) srv = handler_catch srv"
    and "api_post_config refresh file content srv = (srv, Status_500_Failed_to_save_file)"
    and "api_get_config file srv = Status_404_File_not_found"
  using assms
  by (simp_all add: readFile_def writeFile_def ws_message_def api_post_config_def
      api_get_config_def)

lemma handler_catch_silent:
  "sockets (handler_catch srv) = sockets srv"
  "files (handler_catch srv) = files srv"
  "clients (handler_catch srv) = clients srv"
  by (simp_all add: handler_catch_def)

text \<open>
  C6. The claim: a read or write of a document whose name escapes the project is
  rejected, nothing is written, and the failure reaches the observer as a payload of its
  own. The first two hold; the last does not on the observer's channel. Observer 0 asks
  to write \<open>../outside.md\<close>: no file appears, and the observer receives nothing beyond what
  it had received before, while the same request on the request-response surface is
  answered with the status 500.
\<close>

theorem invalid_name_dropped_silently:
  "sent (sockets (ws_message (\<lambda>fs. default_config) 30 None 0
            (ConfigWriteCmd ''../outside.md'' ''text'') two_observers) 0)
     = sent (sockets two_observers 0)
   \<and> sent (sockets (ws_message (\<lambda>fs. default_config) 30 None 0
            (ConfigReadCmd ''/etc/passwd'') two_observers) 0)
     = sent (sockets two_observers 0)
   \<and> files (ws_message (\<lambda>fs. default_config) 30 None 0
            (ConfigWriteCmd ''../outside.md'' ''text'') two_observers) ''/project/../outside.md''
     = None
   \<and> console (ws_message (\<lambda>fs. default_config) 30 None 0
            (ConfigWriteCmd ''../outside.md'' ''text'') two_observers)
     = [''Error handling message:'']
   \<and> snd (api_post_config (\<lambda>fs. default_config) ''../outside.md'' ''text'' two_observers)
     = Status_500_Failed_to_save_file"
  by code_simp

end
